theory Spec2Isabelle
  imports Main "HOL-Library.Word" "HOL-Library.Signed_Division"
begin

unbundle bit_operations_syntax

section \<open>The operating system as seen by ditty.c\<close>

text \<open>
  ditty.c talks to the kernel through nine system calls. The kernel is a parameter of the
  model: a record of functions, one per system call, over a kernel state of any type. Each
  function gives the value the call returns and the next kernel state, so that a kernel
  with or without the Dirty Pipe defect, and every failure of every call, is an instance.
  The process keeps the list of the calls it has made, with what they returned, and what it
  has printed on the two output streams.
\<close>

type_synonym loff_t = "64 word"
type_synonym size_t = "64 word"
type_synonym unsigned = "32 word"

text \<open>The two ways the source opens a file: read-only, and created write-only with a mode.\<close>

datatype open_how = O_RDONLY | O_CREAT_WRONLY nat

datatype syscall =
    Open string open_how
  | Close int
  | Write int string
  | Read int nat
  | Pipe
  | Getpipe_sz int
  | Fstat int
  | Splice int loff_t int nat
  | Unlink string

text \<open>
  What a call gave back: an integer (a descriptor, a byte count, 0, or a negative value on
  failure); for \<open>pipe\<close> the two descriptors; for \<open>read\<close> the bytes stored in the buffer;
  for \<open>fstat\<close> the field \<open>st_size\<close>. \<open>None\<close> is the failure of the call.
\<close>

datatype result =
    RInt int
  | RFds "(int \<times> int) option"
  | RData "string option"
  | RSize "loff_t option"

record 'k kernel =
  k_open :: "string \<Rightarrow> open_how \<Rightarrow> 'k \<Rightarrow> int \<times> 'k"
  k_close :: "int \<Rightarrow> 'k \<Rightarrow> int \<times> 'k"
  k_write :: "int \<Rightarrow> string \<Rightarrow> 'k \<Rightarrow> int \<times> 'k"
  k_read :: "int \<Rightarrow> nat \<Rightarrow> 'k \<Rightarrow> string option \<times> 'k"
  k_pipe :: "'k \<Rightarrow> (int \<times> int) option \<times> 'k"
  k_getpipe_sz :: "int \<Rightarrow> 'k \<Rightarrow> int \<times> 'k"
  k_fstat :: "int \<Rightarrow> 'k \<Rightarrow> loff_t option \<times> 'k"
  k_splice :: "int \<Rightarrow> loff_t \<Rightarrow> int \<Rightarrow> nat \<Rightarrow> 'k \<Rightarrow> int \<times> 'k"
  k_unlink :: "string \<Rightarrow> 'k \<Rightarrow> int \<times> 'k"

text \<open>A line on the error stream: \<open>perror\<close> adds the text of \<open>errno\<close> to its prefix.\<close>

datatype diag = Perror string | Fprintf string

record 'k proc =
  kern :: 'k
  trace :: "(syscall \<times> result) list"
  out :: "string list"
  err :: "diag list"

definition called :: "syscall \<Rightarrow> result \<Rightarrow> 'k \<Rightarrow> 'k proc \<Rightarrow> 'k proc" where
  "called c r k s = s\<lparr>kern := k, trace := trace s @ [(c, r)]\<rparr>"

definition sys_open :: "'k kernel \<Rightarrow> string \<Rightarrow> open_how \<Rightarrow> 'k proc \<Rightarrow> int \<times> 'k proc" where
  "sys_open K path how s =
     (let (r, k) = k_open K path how (kern s) in (r, called (Open path how) (RInt r) k s))"

definition sys_close :: "'k kernel \<Rightarrow> int \<Rightarrow> 'k proc \<Rightarrow> int \<times> 'k proc" where
  "sys_close K fd s =
     (let (r, k) = k_close K fd (kern s) in (r, called (Close fd) (RInt r) k s))"

definition sys_write :: "'k kernel \<Rightarrow> int \<Rightarrow> string \<Rightarrow> 'k proc \<Rightarrow> int \<times> 'k proc" where
  "sys_write K fd buf s =
     (let (r, k) = k_write K fd buf (kern s) in (r, called (Write fd buf) (RInt r) k s))"

text \<open>\<open>read\<close> stores at most the \<open>n\<close> bytes asked for.\<close>

definition sys_read :: "'k kernel \<Rightarrow> int \<Rightarrow> nat \<Rightarrow> 'k proc \<Rightarrow> string option \<times> 'k proc" where
  "sys_read K fd n s =
     (let (r, k) = k_read K fd n (kern s); r' = map_option (take n) r
      in (r', called (Read fd n) (RData r') k s))"

definition sys_pipe :: "'k kernel \<Rightarrow> 'k proc \<Rightarrow> (int \<times> int) option \<times> 'k proc" where
  "sys_pipe K s =
     (let (r, k) = k_pipe K (kern s) in (r, called Pipe (RFds r) k s))"

definition sys_getpipe_sz :: "'k kernel \<Rightarrow> int \<Rightarrow> 'k proc \<Rightarrow> int \<times> 'k proc" where
  "sys_getpipe_sz K fd s =
     (let (r, k) = k_getpipe_sz K fd (kern s) in (r, called (Getpipe_sz fd) (RInt r) k s))"

definition sys_fstat :: "'k kernel \<Rightarrow> int \<Rightarrow> 'k proc \<Rightarrow> loff_t option \<times> 'k proc" where
  "sys_fstat K fd s =
     (let (r, k) = k_fstat K fd (kern s) in (r, called (Fstat fd) (RSize r) k s))"

definition sys_splice ::
  "'k kernel \<Rightarrow> int \<Rightarrow> loff_t \<Rightarrow> int \<Rightarrow> nat \<Rightarrow> 'k proc \<Rightarrow> int \<times> 'k proc" where
  "sys_splice K fd_in off_in fd_out len s =
     (let (r, k) = k_splice K fd_in off_in fd_out len (kern s)
      in (r, called (Splice fd_in off_in fd_out len) (RInt r) k s))"

definition sys_unlink :: "'k kernel \<Rightarrow> string \<Rightarrow> 'k proc \<Rightarrow> int \<times> 'k proc" where
  "sys_unlink K path s =
     (let (r, k) = k_unlink K path (kern s) in (r, called (Unlink path) (RInt r) k s))"

definition perror :: "string \<Rightarrow> 'k proc \<Rightarrow> 'k proc" where
  "perror msg s = s\<lparr>err := err s @ [Perror msg]\<rparr>"

definition fprintf_stderr :: "string \<Rightarrow> 'k proc \<Rightarrow> 'k proc" where
  "fprintf_stderr msg s = s\<lparr>err := err s @ [Fprintf msg]\<rparr>"

definition printf :: "string \<Rightarrow> 'k proc \<Rightarrow> 'k proc" where
  "printf msg s = s\<lparr>out := out s @ [msg]\<rparr>"

section \<open>Constants and C strings\<close>

text \<open>The values of \<open>stdlib.h\<close> on Linux, the only system that has \<open>splice\<close>.\<close>

definition EXIT_SUCCESS :: int where "EXIT_SUCCESS = 0"
definition EXIT_FAILURE :: int where "EXIT_FAILURE = 1"

text \<open>
  The page size, as the source defines it when \<open>sys/user.h\<close> does not; it is a power
  of two, which \<open>(offset | (PAGE_SIZE - 1)) + 1\<close> relies on.
\<close>

definition PAGE_SIZE :: int where "PAGE_SIZE = 4096"

text \<open>\<open>sizeof(buffer)\<close> of the scratch buffer of \<open>prepare_pipe\<close>.\<close>

definition sizeof_buffer :: unsigned where "sizeof_buffer = 4096"

definition NUL :: char where "NUL = CHR 0x00"

text \<open>A C string is the characters before the first NUL.\<close>

definition strlen :: "string \<Rightarrow> nat" where
  "strlen s = length (takeWhile (\<lambda>c. c \<noteq> NUL) s)"

text \<open>The character at the head of a C string; past its end sits the terminating NUL.\<close>

definition peek :: "string \<Rightarrow> char" where
  "peek s = (case s of [] \<Rightarrow> NUL | c # _ \<Rightarrow> c)"

fun strncmp :: "string \<Rightarrow> string \<Rightarrow> nat \<Rightarrow> int" where
  "strncmp s1 s2 0 = 0"
| "strncmp s1 s2 (Suc n) =
     (if peek s1 \<noteq> peek s2 then int (of_char (peek s1)) - int (of_char (peek s2))
      else if peek s1 = NUL then 0
      else strncmp (tl s1) (tl s2) n)"

section \<open>prepare_pipe\<close>

text \<open>
  The first loop of \<open>prepare_pipe\<close>: \<open>r\<close> bytes are still to be written, in chunks of at
  most \<open>sizeof(buffer)\<close> bytes of the zero-filled static buffer. What \<open>write\<close> returns is
  not looked at.
\<close>

function prepare_pipe_fill :: "'k kernel \<Rightarrow> int \<Rightarrow> unsigned \<Rightarrow> 'k proc \<Rightarrow> 'k proc" where
  "prepare_pipe_fill K fd r s =
     (if 0 < r then
        (let n = (if sizeof_buffer < r then sizeof_buffer else r)
         in prepare_pipe_fill K fd (r - n) (snd (sys_write K fd (replicate (unat n) NUL) s)))
      else s)"
  by pat_completeness auto
termination
  by (relation "measure (\<lambda>(K, fd, r, s). unat r)")
     (auto simp: sizeof_buffer_def unat_sub word_less_nat_alt word_le_nat_alt)

text \<open>The second loop: \<open>r\<close> bytes are still to be read back, in the same chunks.\<close>

function prepare_pipe_drain :: "'k kernel \<Rightarrow> int \<Rightarrow> unsigned \<Rightarrow> 'k proc \<Rightarrow> 'k proc" where
  "prepare_pipe_drain K fd r s =
     (if 0 < r then
        (let n = (if sizeof_buffer < r then sizeof_buffer else r)
         in prepare_pipe_drain K fd (r - n) (snd (sys_read K fd (unat n) s)))
      else s)"
  by pat_completeness auto
termination
  by (relation "measure (\<lambda>(K, fd, r, s). unat r)")
     (auto simp: sizeof_buffer_def unat_sub word_less_nat_alt word_le_nat_alt)

text \<open>
  \<open>prepare_pipe\<close> gives the two descriptors, or \<open>None\<close> when \<open>pipe\<close> failed and the
  process was ended by \<open>abort()\<close>. The size returned by \<open>fcntl\<close> is stored in an
  \<open>unsigned\<close>.
\<close>

definition prepare_pipe :: "'k kernel \<Rightarrow> 'k proc \<Rightarrow> (int \<times> int) option \<times> 'k proc" where
  "prepare_pipe K s =
     (case sys_pipe K s of
        (None, s1) \<Rightarrow> (None, s1)
      | (Some (p0, p1), s1) \<Rightarrow>
          (let (sz, s2) = sys_getpipe_sz K p1 s1;
               pipe_size = (word_of_int sz :: unsigned);
               s3 = prepare_pipe_fill K p1 pipe_size s2;
               s4 = prepare_pipe_drain K p0 pipe_size s3
           in (Some (p0, p1), s4)))"

section \<open>check_dirty_pipe\<close>

text \<open>
  The result is what the function returns, or \<open>None\<close> when the process was aborted inside
  \<open>prepare_pipe\<close>. \<open>offset % PAGE_SIZE\<close> is C's remainder of the signed value.
\<close>

definition check_dirty_pipe ::
  "'k kernel \<Rightarrow> string \<Rightarrow> loff_t \<Rightarrow> string \<Rightarrow> 'k proc \<Rightarrow> int option \<times> 'k proc" where
  "check_dirty_pipe K path offset data s =
     (let data_size = (of_nat (strlen data) :: size_t) in
      if sint offset smod PAGE_SIZE = 0 then
        (Some EXIT_FAILURE,
         fprintf_stderr ''Sorry, cannot start writing at a page boundary\<newline>'' s)
      else
        let next_page = (offset OR word_of_int (PAGE_SIZE - 1)) + 1;
            end_offset = offset + data_size
        in
        if next_page <s end_offset then
          (Some EXIT_FAILURE, fprintf_stderr ''Sorry, cannot write across a page boundary\<newline>'' s)
        else
          let (fd, s1) = sys_open K path O_RDONLY s in
          if fd < 0 then (Some EXIT_FAILURE, perror ''open failed'' s1)
          else
            case sys_fstat K fd s1 of
              (None, s2) \<Rightarrow> (Some EXIT_FAILURE, perror ''stat failed'' s2)
            | (Some st_size, s2) \<Rightarrow>
                if st_size <s offset then
                  (Some EXIT_FAILURE, fprintf_stderr ''Offset is not inside the file\<newline>'' s2)
                else if st_size <s end_offset then
                  (Some EXIT_FAILURE, fprintf_stderr ''Sorry, cannot enlarge the file\<newline>'' s2)
                else
                  case prepare_pipe K s2 of
                    (None, s3) \<Rightarrow> (None, s3)
                  | (Some (p0, p1), s3) \<Rightarrow>
                      let (nbytes, s4) = sys_splice K fd (offset - 1) p1 1 s3 in
                      if nbytes < 0 then (Some EXIT_FAILURE, perror ''splice failed'' s4)
                      else if nbytes = 0 then
                        (Some EXIT_FAILURE, fprintf_stderr ''short splice\<newline>'' s4)
                      else
                        let (nbytes, s5) = sys_write K p1 (take (strlen data) data) s4 in
                        if nbytes < 0 then (Some EXIT_FAILURE, perror ''write failed'' s5)
                        else if (word_of_int nbytes :: size_t) < data_size then
                          (Some EXIT_FAILURE, fprintf_stderr ''short write\<newline>'' s5)
                        else (Some EXIT_SUCCESS, s5))"

section \<open>The harness\<close>

definition test_string :: string where
  "test_string = ''Hello World!\<newline>''"

definition test_file :: string where
  "test_file = ''/tmp/testfile.txt''"

text \<open>The octal mode \<open>0444\<close>: read permission for everyone, write for nobody.\<close>

definition mode_0444 :: nat where
  "mode_0444 = 4 * 64 + 4 * 8 + 4"

definition create_test_file :: "'k kernel \<Rightarrow> string \<Rightarrow> 'k proc \<Rightarrow> int \<times> 'k proc" where
  "create_test_file K path s =
     (let (fd, s1) = sys_open K path (O_CREAT_WRONLY mode_0444) s in
      if fd < 0 then (EXIT_FAILURE, perror ''testfile open failed'' s1)
      else
        let (w, s2) = sys_write K fd (take (strlen test_string) test_string) s1 in
        if w < 0 then (EXIT_FAILURE, perror ''testfile write failed'' s2)
        else (0, snd (sys_close K fd s2)))"

text \<open>
  After a failed \<open>read\<close> the buffer holds nothing the model knows; \<open>r != l\<close> is then true
  and \<open>strncmp\<close> is not reached.
\<close>

definition check_file_content :: "'k kernel \<Rightarrow> string \<Rightarrow> 'k proc \<Rightarrow> int \<times> 'k proc" where
  "check_file_content K path s =
     (let (fd, s1) = sys_open K path O_RDONLY s in
      if fd < 0 then (- 1, perror ''testfile read failed'' s1)
      else
        let (rd, s2) = sys_read K fd 255 s1;
            r = (case rd of None \<Rightarrow> - 1 | Some bs \<Rightarrow> int (length bs));
            buf = (case rd of None \<Rightarrow> [] | Some bs \<Rightarrow> bs);
            s3 = snd (sys_close K fd s2);
            l = int (strlen test_string)
        in if r \<noteq> l \<or> strncmp test_string buf (nat l) \<noteq> 0 then (1, s3) else (0, s3))"

text \<open>How the process ends: \<open>main\<close> returns a status, or \<open>abort()\<close> ended it.\<close>

datatype exit = Exited int | Aborted

definition main :: "int \<Rightarrow> string list \<Rightarrow> 'k kernel \<Rightarrow> 'k proc \<Rightarrow> exit \<times> 'k proc" where
  "main argc argv K s =
     (let (c, s1) = create_test_file K test_file s in
      if c < 0 then (Exited EXIT_FAILURE, s1)
      else
        let path = test_file; offset = (6 :: loff_t); data = ''mammy'' in
        case check_dirty_pipe K path offset data s1 of
          (None, s2) \<Rightarrow> (Aborted, s2)
        | (Some d, s2) \<Rightarrow>
            if d < 0 then (Exited EXIT_FAILURE, s2)
            else
              let (ret, s3) = check_file_content K test_file s2 in
              if ret = - 1 then (Exited EXIT_FAILURE, s3)
              else
                let s4 = (if ret = 0 then printf ''You are safe\<newline>'' s3
                          else if ret = 1 then printf ''VULNERABLE!\<newline>'' s3
                          else s3)
                in (Exited 0, snd (sys_unlink K ''/tmp/testfile.txt'' s4)))"

section \<open>Reading a run\<close>

text \<open>The calls made between two states of the process, oldest first.\<close>

definition calls_of :: "'k proc \<Rightarrow> 'k proc \<Rightarrow> (syscall \<times> result) list" where
  "calls_of s s' = drop (length (trace s)) (trace s')"

text \<open>
  \<open>only_calls P s s'\<close>: the process went from \<open>s\<close> to \<open>s'\<close> by making calls that all
  satisfy \<open>P\<close>, and forgot none of the calls made before.
\<close>

definition only_calls :: "(syscall \<Rightarrow> bool) \<Rightarrow> 'k proc \<Rightarrow> 'k proc \<Rightarrow> bool" where
  "only_calls P s s' \<longleftrightarrow>
     take (length (trace s)) (trace s') = trace s \<and> list_all (\<lambda>e. P (fst e)) (calls_of s s')"

text \<open>
  The calls \<open>check_dirty_pipe\<close> can make on a path, an offset and a payload: it opens
  the path read-only, asks for the size of the file and builds the pipe; it writes zeros
  to the pipe and reads them back, 4096 bytes at most a time; it splices one byte, from
  the byte before the offset, only when the offset is not on a page boundary; it writes
  the payload. It closes nothing and removes nothing.
\<close>

definition cdp_call :: "string \<Rightarrow> loff_t \<Rightarrow> string \<Rightarrow> syscall \<Rightarrow> bool" where
  "cdp_call path offset data c =
     (case c of
        Open p how \<Rightarrow> p = path \<and> how = O_RDONLY
      | Close fd \<Rightarrow> False
      | Write fd buf \<Rightarrow>
          buf = take (strlen data) data \<or>
          (0 < length buf \<and> length buf \<le> 4096 \<and> buf = replicate (length buf) NUL)
      | Read fd n \<Rightarrow> 0 < n \<and> n \<le> 4096
      | Pipe \<Rightarrow> True
      | Getpipe_sz fd \<Rightarrow> True
      | Fstat fd \<Rightarrow> True
      | Splice fd_in off_in fd_out len \<Rightarrow>
          off_in = offset - 1 \<and> len = 1 \<and> sint offset smod PAGE_SIZE \<noteq> 0
      | Unlink p \<Rightarrow> False)"

text \<open>
  A call that names a file names the artifact, a splice takes the one byte before offset
  6, and what is written is the payload, the content of the artifact or zeros.
\<close>

definition fixed_target :: "syscall \<Rightarrow> bool" where
  "fixed_target c =
     (case c of
        Open p how \<Rightarrow> p = ''/tmp/testfile.txt''
      | Unlink p \<Rightarrow> p = ''/tmp/testfile.txt''
      | Splice fd_in off_in fd_out len \<Rightarrow> off_in + 1 = 6 \<and> len = 1
      | Write fd buf \<Rightarrow>
          buf = ''mammy'' \<or> buf = ''Hello World!\<newline>'' \<or> buf = replicate (length buf) NUL
      | _ \<Rightarrow> True)"

text \<open>A content with a payload put over its bytes from a position on.\<close>

definition injected :: "string \<Rightarrow> nat \<Rightarrow> string \<Rightarrow> string" where
  "injected content pos payload =
     take pos content @ payload @ drop (pos + length payload) content"

text \<open>
  The errors of the write path, named as the specification names them. The source tells
  them apart by the line it prints on the error stream only; the value returned is
  \<open>EXIT_FAILURE\<close> for all of them.
\<close>

datatype WriteError =
    PageBoundaryOffset
  | CrossesPageBoundary
  | OpenFailed
  | StatFailed
  | OffsetOutOfRange
  | WouldGrowFile
  | SpliceFailed
  | ShortSplice
  | WriteFailed
  | ShortWrite

fun diagnostic :: "WriteError \<Rightarrow> diag" where
  "diagnostic PageBoundaryOffset = Fprintf ''Sorry, cannot start writing at a page boundary\<newline>''"
| "diagnostic CrossesPageBoundary = Fprintf ''Sorry, cannot write across a page boundary\<newline>''"
| "diagnostic OpenFailed = Perror ''open failed''"
| "diagnostic StatFailed = Perror ''stat failed''"
| "diagnostic OffsetOutOfRange = Fprintf ''Offset is not inside the file\<newline>''"
| "diagnostic WouldGrowFile = Fprintf ''Sorry, cannot enlarge the file\<newline>''"
| "diagnostic SpliceFailed = Perror ''splice failed''"
| "diagnostic ShortSplice = Fprintf ''short splice\<newline>''"
| "diagnostic WriteFailed = Perror ''write failed''"
| "diagnostic ShortWrite = Fprintf ''short write\<newline>''"

text \<open>
  \<open>fails_with s res e\<close>: started in \<open>s\<close>, \<open>check_dirty_pipe\<close> returned \<open>EXIT_FAILURE\<close>
  after printing the line of the error \<open>e\<close>, and nothing else, on the error stream.
\<close>

definition fails_with :: "'k proc \<Rightarrow> int option \<times> 'k proc \<Rightarrow> WriteError \<Rightarrow> bool" where
  "fails_with s res e \<longleftrightarrow>
     fst res = Some EXIT_FAILURE \<and> err (snd res) = err s @ [diagnostic e] \<and> out (snd res) = out s"

text \<open>
  The verdict of a run of \<open>main\<close> started in \<open>s\<close>, read off what it printed on the
  standard output: one of the two verdict lines, or neither.
\<close>

datatype ProbeVerdict = Safe | Vulnerable | Error

definition verdict :: "'k proc \<Rightarrow> exit \<times> 'k proc \<Rightarrow> ProbeVerdict" where
  "verdict s res =
     (if out (snd res) = out s @ [''You are safe\<newline>''] then Safe
      else if out (snd res) = out s @ [''VULNERABLE!\<newline>''] then Vulnerable
      else Error)"

text \<open>
  The descriptors a call handed to the process, and whether every descriptor handed out in
  a list of calls is closed by a later call of that list.
\<close>

fun obtained :: "syscall \<times> result \<Rightarrow> int list" where
  "obtained (Open path how, RInt fd) = (if 0 \<le> fd then [fd] else [])"
| "obtained (Pipe, RFds (Some (p0, p1))) = [p0, p1]"
| "obtained e = []"

fun all_released :: "(syscall \<times> result) list \<Rightarrow> bool" where
  "all_released [] = True"
| "all_released (e # es) =
     (list_all (\<lambda>fd. Close fd \<in> fst ` set es) (obtained e) \<and> all_released es)"

text \<open>
  The bytes the process asked to write to, or to read from, a descriptor in a list of
  calls, call by call; and the bytes the kernel said it took or gave.
\<close>

fun write_sizes :: "int \<Rightarrow> (syscall \<times> result) list \<Rightarrow> nat list" where
  "write_sizes fd [] = []"
| "write_sizes fd ((Write fd' buf, r) # es) =
     (if fd' = fd then length buf # write_sizes fd es else write_sizes fd es)"
| "write_sizes fd (e # es) = write_sizes fd es"

fun read_sizes :: "int \<Rightarrow> (syscall \<times> result) list \<Rightarrow> nat list" where
  "read_sizes fd [] = []"
| "read_sizes fd ((Read fd' n, r) # es) =
     (if fd' = fd then n # read_sizes fd es else read_sizes fd es)"
| "read_sizes fd (e # es) = read_sizes fd es"

fun bytes_written :: "int \<Rightarrow> (syscall \<times> result) list \<Rightarrow> int" where
  "bytes_written fd [] = 0"
| "bytes_written fd ((Write fd' buf, RInt r) # es) =
     (if fd' = fd \<and> 0 < r then r + bytes_written fd es else bytes_written fd es)"
| "bytes_written fd (e # es) = bytes_written fd es"

fun bytes_read :: "int \<Rightarrow> (syscall \<times> result) list \<Rightarrow> int" where
  "bytes_read fd [] = 0"
| "bytes_read fd ((Read fd' n, RData (Some bs)) # es) =
     (if fd' = fd then int (length bs) + bytes_read fd es else bytes_read fd es)"
| "bytes_read fd (e # es) = bytes_read fd es"

text \<open>
  The calls of the two loops of \<open>prepare_pipe\<close>: a write of zeros to the descriptor, of
  one byte at least and 4096 at most; a read from the descriptor of as many. And a
  transfer that the kernel carried out in full: \<open>write\<close> returned the count asked for,
  \<open>read\<close> gave that many bytes.
\<close>

fun fill_chunk :: "int \<Rightarrow> syscall \<times> result \<Rightarrow> bool" where
  "fill_chunk fd (Write fd' buf, RInt x) =
     (fd' = fd \<and> 0 < length buf \<and> length buf \<le> 4096 \<and> buf = replicate (length buf) NUL)"
| "fill_chunk fd e = False"

fun drain_chunk :: "int \<Rightarrow> syscall \<times> result \<Rightarrow> bool" where
  "drain_chunk fd (Read fd' n, RData x) = (fd' = fd \<and> 0 < n \<and> n \<le> 4096)"
| "drain_chunk fd e = False"

fun complete :: "syscall \<times> result \<Rightarrow> bool" where
  "complete (Write fd buf, RInt x) = (x = int (length buf))"
| "complete (Read fd n, RData x) = (map_option length x = Some n)"
| "complete e = True"

text \<open>
  What the kernel answers to a call, as the process records it, and the state it is left
  in. \<open>replay\<close> runs a list of recorded calls on the kernel from a state: it gives the
  state reached when the kernel answers every call as recorded, and \<open>None\<close> when an
  answer differs.
\<close>

fun perform :: "'k kernel \<Rightarrow> syscall \<Rightarrow> 'k \<Rightarrow> result \<times> 'k" where
  "perform K (Open path how) k = (let (r, k') = k_open K path how k in (RInt r, k'))"
| "perform K (Close fd) k = (let (r, k') = k_close K fd k in (RInt r, k'))"
| "perform K (Write fd buf) k = (let (r, k') = k_write K fd buf k in (RInt r, k'))"
| "perform K (Read fd n) k = (let (r, k') = k_read K fd n k in (RData (map_option (take n) r), k'))"
| "perform K Pipe k = (let (r, k') = k_pipe K k in (RFds r, k'))"
| "perform K (Getpipe_sz fd) k = (let (r, k') = k_getpipe_sz K fd k in (RInt r, k'))"
| "perform K (Fstat fd) k = (let (r, k') = k_fstat K fd k in (RSize r, k'))"
| "perform K (Splice fd_in off_in fd_out len) k =
     (let (r, k') = k_splice K fd_in off_in fd_out len k in (RInt r, k'))"
| "perform K (Unlink path) k = (let (r, k') = k_unlink K path k in (RInt r, k'))"

fun replay :: "'k kernel \<Rightarrow> (syscall \<times> result) list \<Rightarrow> 'k \<Rightarrow> 'k option" where
  "replay K [] k = Some k"
| "replay K ((c, r) # es) k =
     (case perform K c k of (r', k') \<Rightarrow> if r' = r then replay K es k' else None)"

text \<open>
  A kernel whose descriptors \<open>p0\<close> and \<open>p1\<close> are the two ends of a pipe of a capacity,
  \<open>level\<close> reading the bytes held by the pipe off the state of the kernel: a write to
  \<open>p1\<close> that fits is taken in full and adds its bytes, a read from \<open>p0\<close> of no more
  than what is held is served in full and removes its bytes.
\<close>

definition pipe_like :: "'k kernel \<Rightarrow> ('k \<Rightarrow> nat) \<Rightarrow> int \<Rightarrow> int \<Rightarrow> nat \<Rightarrow> bool" where
  "pipe_like K level p0 p1 cap \<longleftrightarrow>
     (\<forall>buf k. level k + length buf \<le> cap \<longrightarrow>
        fst (k_write K p1 buf k) = int (length buf) \<and>
        level (snd (k_write K p1 buf k)) = level k + length buf) \<and>
     (\<forall>n k. n \<le> level k \<longrightarrow>
        map_option length (fst (k_read K p0 n k)) = Some n \<and>
        level (snd (k_read K p0 n k)) = level k - n)"

section \<open>A scripted kernel\<close>

text \<open>
  A kernel that answers from a script, to run the program on: the results of the
  successive calls of \<open>open\<close> (a failure once the list is used up), one answer each for
  \<open>fstat\<close>, \<open>pipe\<close>, \<open>fcntl\<close> and \<open>splice\<close>, which the program calls once at most, and
  the answers of \<open>write\<close> and \<open>read\<close> as functions of the descriptor and the request.
  \<open>close\<close> and \<open>unlink\<close> succeed.
\<close>

record script =
  opens :: "int list"
  stat :: "loff_t option"
  pipe_fds :: "(int \<times> int) option"
  pipe_sz :: int
  splice_ret :: int
  write_ret :: "int \<Rightarrow> string \<Rightarrow> int"
  read_ret :: "int \<Rightarrow> nat \<Rightarrow> string option"

definition scripted :: "script kernel" where
  "scripted =
     \<lparr>k_open = (\<lambda>path how k. case opens k of [] \<Rightarrow> (- 1, k) | r # rs \<Rightarrow> (r, k\<lparr>opens := rs\<rparr>)),
      k_close = (\<lambda>fd k. (0, k)),
      k_write = (\<lambda>fd buf k. (write_ret k fd buf, k)),
      k_read = (\<lambda>fd n k. (read_ret k fd n, k)),
      k_pipe = (\<lambda>k. (pipe_fds k, k)),
      k_getpipe_sz = (\<lambda>fd k. (pipe_sz k, k)),
      k_fstat = (\<lambda>fd k. (stat k, k)),
      k_splice = (\<lambda>fd_in off_in fd_out len k. (splice_ret k, k)),
      k_unlink = (\<lambda>path k. (0, k))\<rparr>"

text \<open>A process that has made no call and printed nothing yet.\<close>

definition start :: "'k \<Rightarrow> 'k proc" where
  "start k = \<lparr>kern = k, trace = [], out = [], err = []\<rparr>"

text \<open>
  A run in which every call succeeds: the artifact is descriptor 3 twice and 6 for the
  read-back, the pipe is descriptors 4 and 5 with the capacity given, the artifact has its
  13 bytes, every transfer is complete, and the read-back finds the content given.
\<close>

definition run :: "int \<Rightarrow> string \<Rightarrow> script" where
  "run capacity content =
     \<lparr>opens = [3, 3, 6], stat = Some 13, pipe_fds = Some (4, 5), pipe_sz = capacity,
      splice_ret = 1, write_ret = (\<lambda>fd buf. int (length buf)),
      read_ret = (\<lambda>fd n. if fd = 6 then Some content else Some (replicate n NUL))\<rparr>"

text \<open>
  A kernel whose state is the number of bytes held by its one pipe, descriptors 4 and 5:
  a write to the pipe takes what still fits, a read gives what is there.
\<close>

definition pipe_host :: "nat \<Rightarrow> nat kernel" where
  "pipe_host cap =
     \<lparr>k_open = (\<lambda>path how n. (3, n)),
      k_close = (\<lambda>fd n. (0, n)),
      k_write = (\<lambda>fd buf n.
         if fd = 5 then (int (min (length buf) (cap - n)), n + min (length buf) (cap - n))
         else (int (length buf), n)),
      k_read = (\<lambda>fd m n.
         if fd = 4 then (Some (replicate (min m n) NUL), n - min m n) else (Some [], n)),
      k_pipe = (\<lambda>n. (Some (4, 5), 0)),
      k_getpipe_sz = (\<lambda>fd n. (int cap, n)),
      k_fstat = (\<lambda>fd n. (Some 13, n)),
      k_splice = (\<lambda>fd_in off_in fd_out len n. if n < cap then (1, n + 1) else (- 1, n)),
      k_unlink = (\<lambda>path n. (0, n))\<rparr>"

section \<open>Facts about the model\<close>

declare prepare_pipe_fill.simps [simp del] prepare_pipe_drain.simps [simp del]

lemmas sys_defs = sys_open_def sys_close_def sys_write_def sys_read_def sys_pipe_def
  sys_getpipe_sz_def sys_fstat_def sys_splice_def sys_unlink_def

lemma out_sys [simp]:
  "out (snd (sys_open K path how s)) = out s"
  "out (snd (sys_close K fd s)) = out s"
  "out (snd (sys_write K fd buf s)) = out s"
  "out (snd (sys_read K fd n s)) = out s"
  "out (snd (sys_pipe K s)) = out s"
  "out (snd (sys_getpipe_sz K fd s)) = out s"
  "out (snd (sys_fstat K fd s)) = out s"
  "out (snd (sys_splice K fd off fd' len s)) = out s"
  "out (snd (sys_unlink K path s)) = out s"
  by (simp_all add: sys_defs called_def split_def Let_def)

lemma err_sys [simp]:
  "err (snd (sys_open K path how s)) = err s"
  "err (snd (sys_close K fd s)) = err s"
  "err (snd (sys_write K fd buf s)) = err s"
  "err (snd (sys_read K fd n s)) = err s"
  "err (snd (sys_pipe K s)) = err s"
  "err (snd (sys_getpipe_sz K fd s)) = err s"
  "err (snd (sys_fstat K fd s)) = err s"
  "err (snd (sys_splice K fd off fd' len s)) = err s"
  "err (snd (sys_unlink K path s)) = err s"
  by (simp_all add: sys_defs called_def split_def Let_def)

lemma io_simps [simp]:
  "out (perror m s) = out s" "err (perror m s) = err s @ [Perror m]"
  "out (fprintf_stderr m s) = out s" "err (fprintf_stderr m s) = err s @ [Fprintf m]"
  "out (printf m s) = out s @ [m]" "err (printf m s) = err s"
  "trace (perror m s) = trace s" "trace (fprintf_stderr m s) = trace s"
  "trace (printf m s) = trace s"
  by (simp_all add: perror_def fprintf_stderr_def printf_def)

lemma streams_fill [simp]:
  "out (prepare_pipe_fill K fd r s) = out s \<and> err (prepare_pipe_fill K fd r s) = err s"
proof (induction K fd r s rule: prepare_pipe_fill.induct)
  case (1 K fd r s)
  show ?case
  proof (cases "0 < r")
    case True
    from "1.IH" [OF True refl] True show ?thesis
      by (subst (1 2) prepare_pipe_fill.simps) (simp add: Let_def)
  next
    case False
    then show ?thesis by (subst (1 2) prepare_pipe_fill.simps) simp
  qed
qed

lemma streams_drain [simp]:
  "out (prepare_pipe_drain K fd r s) = out s \<and> err (prepare_pipe_drain K fd r s) = err s"
proof (induction K fd r s rule: prepare_pipe_drain.induct)
  case (1 K fd r s)
  show ?case
  proof (cases "0 < r")
    case True
    from "1.IH" [OF True refl] True show ?thesis
      by (subst (1 2) prepare_pipe_drain.simps) (simp add: Let_def)
  next
    case False
    then show ?thesis by (subst (1 2) prepare_pipe_drain.simps) simp
  qed
qed

lemma streams_prepare_pipe [simp]:
  "out (snd (prepare_pipe K s)) = out s" "err (snd (prepare_pipe K s)) = err s"
  by (simp_all add: prepare_pipe_def split_def Let_def split: option.split)

lemma only_calls_iff:
  "only_calls P s s' \<longleftrightarrow> (\<exists>evs. trace s' = trace s @ evs \<and> list_all (\<lambda>e. P (fst e)) evs)"
proof
  assume h: "only_calls P s s'"
  then have "trace s' = trace s @ calls_of s s'"
    unfolding only_calls_def calls_of_def using append_take_drop_id [of "length (trace s)" "trace s'"] by simp
  with h show "\<exists>evs. trace s' = trace s @ evs \<and> list_all (\<lambda>e. P (fst e)) evs"
    unfolding only_calls_def by blast
next
  assume "\<exists>evs. trace s' = trace s @ evs \<and> list_all (\<lambda>e. P (fst e)) evs"
  then show "only_calls P s s'"
    unfolding only_calls_def calls_of_def by auto
qed

lemma only_calls_refl: "only_calls P s s"
  by (simp add: only_calls_def calls_of_def)

lemma only_calls_trans:
  "only_calls P s s1 \<Longrightarrow> only_calls P s1 s2 \<Longrightarrow> only_calls P s s2"
  unfolding only_calls_iff by auto

lemma only_calls_mono:
  "only_calls P s s' \<Longrightarrow> (\<And>c. P c \<Longrightarrow> Q c) \<Longrightarrow> only_calls Q s s'"
  unfolding only_calls_iff by (auto simp: list_all_iff)

lemma only_calls_called: "P c \<Longrightarrow> only_calls P s (called c r k s)"
  by (simp add: only_calls_iff called_def)

lemma only_calls_step:
  "only_calls P s s1 \<Longrightarrow> P c \<Longrightarrow> only_calls P s (called c r k s1)"
  by (auto simp: only_calls_iff called_def)

lemma only_calls_io:
  "only_calls P s s1 \<Longrightarrow> only_calls P s (perror m s1)"
  "only_calls P s s1 \<Longrightarrow> only_calls P s (fprintf_stderr m s1)"
  "only_calls P s s1 \<Longrightarrow> only_calls P s (printf m s1)"
  by (auto simp: only_calls_iff perror_def fprintf_stderr_def printf_def)

lemma only_calls_sys:
  "only_calls P s s1 \<Longrightarrow> P (Open path how) \<Longrightarrow> only_calls P s (snd (sys_open K path how s1))"
  "only_calls P s s1 \<Longrightarrow> P (Close fd) \<Longrightarrow> only_calls P s (snd (sys_close K fd s1))"
  "only_calls P s s1 \<Longrightarrow> P (Write fd buf) \<Longrightarrow> only_calls P s (snd (sys_write K fd buf s1))"
  "only_calls P s s1 \<Longrightarrow> P (Read fd n) \<Longrightarrow> only_calls P s (snd (sys_read K fd n s1))"
  "only_calls P s s1 \<Longrightarrow> P Pipe \<Longrightarrow> only_calls P s (snd (sys_pipe K s1))"
  "only_calls P s s1 \<Longrightarrow> P (Getpipe_sz fd) \<Longrightarrow> only_calls P s (snd (sys_getpipe_sz K fd s1))"
  "only_calls P s s1 \<Longrightarrow> P (Fstat fd) \<Longrightarrow> only_calls P s (snd (sys_fstat K fd s1))"
  "only_calls P s s1 \<Longrightarrow> P (Splice fd off fd' len) \<Longrightarrow> only_calls P s (snd (sys_splice K fd off fd' len s1))"
  "only_calls P s s1 \<Longrightarrow> P (Unlink path) \<Longrightarrow> only_calls P s (snd (sys_unlink K path s1))"
  by (auto simp: sys_defs split_def Let_def intro: only_calls_step)


lemma sint_of_int_self:
  assumes "- (2 ^ 63) \<le> k" "k < 2 ^ 63"
  shows "sint (word_of_int k :: 64 word) = k"
  using assms by (simp add: sint_sbintrunc' signed_take_bit_int_eq_self)

lemma sint_end_offset:
  fixes offset :: loff_t
  assumes "sint offset + int n < 2 ^ 63"
  shows "sint (offset + of_nat n) = sint offset + int n"
proof -
  have "offset + of_nat n = word_of_int (sint offset + int n)"
    by simp
  moreover have "- (2 ^ 63) \<le> sint offset"
    using sint_ge [of offset] by simp
  ultimately show ?thesis
    using assms by (simp only: sint_of_int_self)
qed

lemma int_or_4095: "(k :: int) OR 4095 = k div 4096 * 4096 + 4095"
proof -
  have m: "(4095 :: int) = mask 12" by (simp add: mask_eq_exp_minus_1)
  have "(k AND 4095) + (k OR 4095) = k + 4095"
    by (rule plus_and_or)
  moreover have "k AND 4095 = k mod 4096"
    unfolding m by (simp flip: take_bit_eq_mask add: take_bit_eq_mod)
  ultimately have "k OR 4095 = k - k mod 4096 + 4095" by simp
  then show ?thesis by (simp add: minus_mod_eq_div_mult)
qed

lemma sint_next_page:
  fixes offset :: loff_t
  assumes "(sint offset div 4096 + 1) * 4096 < 2 ^ 63"
  shows "sint ((offset OR 4095) + 1) = (sint offset div 4096 + 1) * 4096"
proof -
  have "offset OR 4095 = word_of_int (sint offset OR 4095)"
    by (simp add: of_int_or_eq)
  then have "(offset OR 4095) + 1 = word_of_int ((sint offset div 4096 + 1) * 4096)"
    by (simp add: int_or_4095 algebra_simps)
  moreover have "- (2 ^ 63) \<le> sint offset"
    using sint_ge [of offset] by simp
  then have "- (2 ^ 63) \<le> (sint offset div 4096 + 1) * 4096"
    by (simp add: algebra_simps)
  ultimately show ?thesis
    using assms by (simp only: sint_of_int_self)
qed




lemma chunk_bounds:
  fixes r :: unsigned
  assumes "0 < r"
  shows "0 < unat (if sizeof_buffer < r then sizeof_buffer else r)"
    and "unat (if sizeof_buffer < r then sizeof_buffer else r) \<le> 4096"
proof -
  from assms have "r \<noteq> 0" by auto
  then have "0 < unat r" by (simp add: unat_gt_0)
  then show "0 < unat (if sizeof_buffer < r then sizeof_buffer else r)"
    by (simp add: sizeof_buffer_def)
  show "unat (if sizeof_buffer < r then sizeof_buffer else r) \<le> 4096"
    by (simp add: sizeof_buffer_def word_less_nat_alt not_less)
qed

lemma only_calls_fill:
  "(\<And>n. 0 < n \<Longrightarrow> n \<le> 4096 \<Longrightarrow> P (Write fd (replicate n NUL))) \<Longrightarrow>
   only_calls P s0 s \<Longrightarrow> only_calls P s0 (prepare_pipe_fill K fd r s)"
proof (induction K fd r s rule: prepare_pipe_fill.induct)
  case (1 K fd r s)
  show ?case
  proof (cases "0 < r")
    case True
    let ?n = "if sizeof_buffer < r then sizeof_buffer else r"
    have "P (Write fd (replicate (unat ?n) NUL))"
      by (rule "1.prems"(1)) (rule chunk_bounds [OF True])+
    with "1.prems"(2) have "only_calls P s0 (snd (sys_write K fd (replicate (unat ?n) NUL) s))"
      by (rule only_calls_sys)
    with "1.prems"(1) have "only_calls P s0 (prepare_pipe_fill K fd (r - ?n)
        (snd (sys_write K fd (replicate (unat ?n) NUL) s)))"
      by (rule "1.IH" [OF True refl])
    moreover have "prepare_pipe_fill K fd r s = prepare_pipe_fill K fd (r - ?n)
        (snd (sys_write K fd (replicate (unat ?n) NUL) s))"
      using True by (subst prepare_pipe_fill.simps) (simp only: Let_def if_True)
    ultimately show ?thesis by simp
  next
    case False
    then have "prepare_pipe_fill K fd r s = s"
      by (subst prepare_pipe_fill.simps) (simp only: if_False)
    with "1.prems" show ?thesis by simp
  qed
qed

lemma only_calls_drain:
  "(\<And>n. 0 < n \<Longrightarrow> n \<le> 4096 \<Longrightarrow> P (Read fd n)) \<Longrightarrow>
   only_calls P s0 s \<Longrightarrow> only_calls P s0 (prepare_pipe_drain K fd r s)"
proof (induction K fd r s rule: prepare_pipe_drain.induct)
  case (1 K fd r s)
  show ?case
  proof (cases "0 < r")
    case True
    let ?n = "if sizeof_buffer < r then sizeof_buffer else r"
    have "P (Read fd (unat ?n))"
      by (rule "1.prems"(1)) (rule chunk_bounds [OF True])+
    with "1.prems"(2) have "only_calls P s0 (snd (sys_read K fd (unat ?n) s))"
      by (rule only_calls_sys)
    with "1.prems"(1) have "only_calls P s0 (prepare_pipe_drain K fd (r - ?n)
        (snd (sys_read K fd (unat ?n) s)))"
      by (rule "1.IH" [OF True refl])
    moreover have "prepare_pipe_drain K fd r s = prepare_pipe_drain K fd (r - ?n)
        (snd (sys_read K fd (unat ?n) s))"
      using True by (subst prepare_pipe_drain.simps) (simp only: Let_def if_True)
    ultimately show ?thesis by simp
  next
    case False
    then have "prepare_pipe_drain K fd r s = s"
      by (subst prepare_pipe_drain.simps) (simp only: if_False)
    with "1.prems" show ?thesis by simp
  qed
qed

lemma only_calls_prepare_pipe:
  assumes "only_calls P s0 s" "P Pipe" "\<And>fd. P (Getpipe_sz fd)"
    "\<And>fd n. 0 < n \<Longrightarrow> n \<le> 4096 \<Longrightarrow> P (Write fd (replicate n NUL))"
    "\<And>fd n. 0 < n \<Longrightarrow> n \<le> 4096 \<Longrightarrow> P (Read fd n)"
  shows "only_calls P s0 (snd (prepare_pipe K s))"
proof -
  have 1: "only_calls P s0 (snd (sys_pipe K s))"
    using assms(1,2) by (rule only_calls_sys)
  show ?thesis
  proof (cases "sys_pipe K s")
    case (Pair r s1)
    with 1 have s1: "only_calls P s0 s1" by simp
    show ?thesis
    proof (cases r)
      case None
      with Pair s1 show ?thesis by (simp add: prepare_pipe_def)
    next
      case (Some p)
      obtain p0 p1 where p: "p = (p0, p1)" by (cases p)
      have 2: "only_calls P s0 (snd (sys_getpipe_sz K p1 s1))"
        using s1 assms(3) by (rule only_calls_sys)
      have "only_calls P s0 (prepare_pipe_drain K p0 (word_of_int (fst (sys_getpipe_sz K p1 s1)))
         (prepare_pipe_fill K p1 (word_of_int (fst (sys_getpipe_sz K p1 s1))) (snd (sys_getpipe_sz K p1 s1))))"
        by (intro only_calls_drain only_calls_fill 2 assms(4,5))
      with Pair Some p show ?thesis
        by (simp add: prepare_pipe_def split_def Let_def)
    qed
  qed
qed

lemma smod_eq_0_iff_dvd: "(k :: int) smod l = 0 \<longleftrightarrow> l dvd k"
proof -
  have "k smod l = 0 \<longleftrightarrow> \<bar>k\<bar> mod \<bar>l\<bar> = 0"
    by (cases "k = 0") (simp_all add: signed_modulo_int_def sgn_eq_0_iff)
  also have "\<dots> \<longleftrightarrow> \<bar>l\<bar> dvd \<bar>k\<bar>"
    by (simp only: dvd_eq_mod_eq_0)
  also have "\<dots> \<longleftrightarrow> l dvd k"
    by simp
  finally show ?thesis .
qed

lemma crossing_iff:
  fixes offset :: loff_t
  assumes "(sint offset div PAGE_SIZE + 1) * PAGE_SIZE < 2 ^ 63"
    and "sint offset + int n < 2 ^ 63"
  shows "(offset OR word_of_int (PAGE_SIZE - 1)) + 1 <s offset + of_nat n \<longleftrightarrow>
         (sint offset div PAGE_SIZE + 1) * PAGE_SIZE < sint offset + int n"
  using assms by (simp add: PAGE_SIZE_def word_sless_alt sint_next_page sint_end_offset)

lemma cdp_page_boundary:
  assumes "PAGE_SIZE dvd sint offset"
  shows "check_dirty_pipe K path offset data s =
    (Some EXIT_FAILURE, fprintf_stderr ''Sorry, cannot start writing at a page boundary\<newline>'' s)"
  using assms by (simp add: check_dirty_pipe_def smod_eq_0_iff_dvd)

lemma cdp_crosses:
  assumes "\<not> PAGE_SIZE dvd sint offset"
    and "(offset OR word_of_int (PAGE_SIZE - 1)) + 1 <s offset + of_nat (strlen data)"
  shows "check_dirty_pipe K path offset data s =
    (Some EXIT_FAILURE, fprintf_stderr ''Sorry, cannot write across a page boundary\<newline>'' s)"
  using assms by (simp add: check_dirty_pipe_def smod_eq_0_iff_dvd Let_def)

lemma cdp_open_failed:
  assumes "\<not> PAGE_SIZE dvd sint offset"
    and "\<not> (offset OR word_of_int (PAGE_SIZE - 1)) + 1 <s offset + of_nat (strlen data)"
    and "sys_open K path O_RDONLY s = (fd, s1)" and "fd < 0"
  shows "check_dirty_pipe K path offset data s = (Some EXIT_FAILURE, perror ''open failed'' s1)"
  using assms by (simp add: check_dirty_pipe_def smod_eq_0_iff_dvd Let_def)

lemma cdp_stat_failed:
  assumes "\<not> PAGE_SIZE dvd sint offset"
    and "\<not> (offset OR word_of_int (PAGE_SIZE - 1)) + 1 <s offset + of_nat (strlen data)"
    and "sys_open K path O_RDONLY s = (fd, s1)" and "0 \<le> fd"
    and "sys_fstat K fd s1 = (None, s2)"
  shows "check_dirty_pipe K path offset data s = (Some EXIT_FAILURE, perror ''stat failed'' s2)"
  using assms by (simp add: check_dirty_pipe_def smod_eq_0_iff_dvd Let_def)

lemma cdp_offset_outside:
  assumes "\<not> PAGE_SIZE dvd sint offset"
    and "\<not> (offset OR word_of_int (PAGE_SIZE - 1)) + 1 <s offset + of_nat (strlen data)"
    and "sys_open K path O_RDONLY s = (fd, s1)" and "0 \<le> fd"
    and "sys_fstat K fd s1 = (Some st_size, s2)"
    and "st_size <s offset"
  shows "check_dirty_pipe K path offset data s =
    (Some EXIT_FAILURE, fprintf_stderr ''Offset is not inside the file\<newline>'' s2)"
  using assms by (simp add: check_dirty_pipe_def smod_eq_0_iff_dvd Let_def)

lemma cdp_would_grow:
  assumes "\<not> PAGE_SIZE dvd sint offset"
    and "\<not> (offset OR word_of_int (PAGE_SIZE - 1)) + 1 <s offset + of_nat (strlen data)"
    and "sys_open K path O_RDONLY s = (fd, s1)" and "0 \<le> fd"
    and "sys_fstat K fd s1 = (Some st_size, s2)"
    and "\<not> st_size <s offset" and "st_size <s offset + of_nat (strlen data)"
  shows "check_dirty_pipe K path offset data s =
    (Some EXIT_FAILURE, fprintf_stderr ''Sorry, cannot enlarge the file\<newline>'' s2)"
  using assms by (simp add: check_dirty_pipe_def smod_eq_0_iff_dvd Let_def)

text \<open>What is left of \<open>check_dirty_pipe\<close> once the request has passed every check.\<close>

lemma cdp_validated:
  assumes "\<not> PAGE_SIZE dvd sint offset"
    and "\<not> (offset OR word_of_int (PAGE_SIZE - 1)) + 1 <s offset + of_nat (strlen data)"
    and "sys_open K path O_RDONLY s = (fd, s1)" and "0 \<le> fd"
    and "sys_fstat K fd s1 = (Some st_size, s2)"
    and "\<not> st_size <s offset" and "\<not> st_size <s offset + of_nat (strlen data)"
  shows "check_dirty_pipe K path offset data s =
    (case prepare_pipe K s2 of
       (None, s3) \<Rightarrow> (None, s3)
     | (Some (p0, p1), s3) \<Rightarrow>
         let (nbytes, s4) = sys_splice K fd (offset - 1) p1 1 s3 in
         if nbytes < 0 then (Some EXIT_FAILURE, perror ''splice failed'' s4)
         else if nbytes = 0 then (Some EXIT_FAILURE, fprintf_stderr ''short splice\<newline>'' s4)
         else
           let (nbytes, s5) = sys_write K p1 (take (strlen data) data) s4 in
           if nbytes < 0 then (Some EXIT_FAILURE, perror ''write failed'' s5)
           else if (word_of_int nbytes :: size_t) < of_nat (strlen data) then
             (Some EXIT_FAILURE, fprintf_stderr ''short write\<newline>'' s5)
           else (Some EXIT_SUCCESS, s5))"
  using assms by (simp add: check_dirty_pipe_def smod_eq_0_iff_dvd Let_def)

lemma only_calls_cdp:
  "only_calls (cdp_call path offset data) s (snd (check_dirty_pipe K path offset data s))"
proof -
  let ?P = "cdp_call path offset data"
  obtain fd s1 where o: "sys_open K path O_RDONLY s = (fd, s1)"
    by (cases "sys_open K path O_RDONLY s")
  have 1: "only_calls ?P s s1"
    using only_calls_sys(1) [OF only_calls_refl, of ?P path O_RDONLY s K] o
    by (simp add: cdp_call_def)
  obtain st s2 where f: "sys_fstat K fd s1 = (st, s2)"
    by (cases "sys_fstat K fd s1")
  have 2: "only_calls ?P s s2"
    using only_calls_sys(7) [OF 1, of fd K] f by (simp add: cdp_call_def)
  obtain pp s3 where p: "prepare_pipe K s2 = (pp, s3)"
    by (cases "prepare_pipe K s2")
  have 3: "only_calls ?P s s3"
    using only_calls_prepare_pipe [OF 2, of K] p by (simp add: cdp_call_def)
  have 4: "only_calls ?P s (snd (sys_splice K fd (offset - 1) p1 1 s3))"
    if "sint offset smod PAGE_SIZE \<noteq> 0" for p1
    using that by (intro only_calls_sys 3) (simp add: cdp_call_def)
  have 5: "only_calls ?P s (snd (sys_write K p1 (take (strlen data) data)
      (snd (sys_splice K fd (offset - 1) p1 1 s3))))"
    if "sint offset smod PAGE_SIZE \<noteq> 0" for p1
    by (intro only_calls_sys 4 that) (simp add: cdp_call_def)
  show ?thesis
    unfolding check_dirty_pipe_def using o f p 1 2 3 4 5
    by (auto simp: Let_def split_def only_calls_refl intro!: only_calls_io split: option.splits)
qed

lemma cdp_status:
  "fst (check_dirty_pipe K path offset data s) = Some d \<Longrightarrow> d = EXIT_FAILURE \<or> d = EXIT_SUCCESS"
  unfolding check_dirty_pipe_def
  by (auto simp: Let_def split_def split: option.splits if_splits)

lemma out_cdp [simp]: "out (snd (check_dirty_pipe K path offset data s)) = out s"
proof -
  obtain fd s1 where o: "sys_open K path O_RDONLY s = (fd, s1)"
    by (cases "sys_open K path O_RDONLY s")
  have 1: "out s1 = out s" using out_sys(1) [of K path O_RDONLY s] o by simp
  obtain st s2 where f: "sys_fstat K fd s1 = (st, s2)"
    by (cases "sys_fstat K fd s1")
  have 2: "out s2 = out s" using out_sys(7) [of K fd s1] f 1 by simp
  obtain pp s3 where p: "prepare_pipe K s2 = (pp, s3)"
    by (cases "prepare_pipe K s2")
  have 3: "out s3 = out s" using streams_prepare_pipe(1) [of K s2] p 2 by simp
  show ?thesis
    unfolding check_dirty_pipe_def using o f p 1 2 3
    by (auto simp: Let_def split_def split: option.splits)
qed

lemma strncmp_eq_0_iff:
  "length s1 = n \<Longrightarrow> length s2 = n \<Longrightarrow> NUL \<notin> set s1 \<Longrightarrow> strncmp s1 s2 n = 0 \<longleftrightarrow> s1 = s2"
proof (induction n arbitrary: s1 s2)
  case 0
  then show ?case by simp
next
  case (Suc n)
  from Suc.prems obtain a as b bs where eq: "s1 = a # as" "s2 = b # bs"
    by (cases s1; cases s2) auto
  with Suc.prems have "strncmp as bs n = 0 \<longleftrightarrow> as = bs"
    by (intro Suc.IH) auto
  with eq Suc.prems(3) show ?case
    by (auto simp: peek_def)
qed

lemma test_string_facts:
  "strlen test_string = 13" "length test_string = 13" "NUL \<notin> set test_string"
  "take 13 test_string = test_string"
  by (simp_all add: strlen_def test_string_def NUL_def)

lemma ctf_status: "0 \<le> fst (create_test_file K path s)"
  by (simp add: create_test_file_def split_def Let_def EXIT_FAILURE_def)

lemma out_ctf [simp]: "out (snd (create_test_file K path s)) = out s"
  by (simp add: create_test_file_def split_def Let_def)

lemma cfc_open_failed:
  assumes "sys_open K path O_RDONLY s = (fd, s1)" and "fd < 0"
  shows "check_file_content K path s = (- 1, perror ''testfile read failed'' s1)"
  using assms by (simp add: check_file_content_def)

lemma cfc_unchanged:
  assumes "sys_open K path O_RDONLY s = (fd, s1)" and "0 \<le> fd"
    and "fst (sys_read K fd 255 s1) = Some test_string"
  shows "fst (check_file_content K path s) = 0"
  using assms strncmp_eq_0_iff [of test_string 13 test_string]
  by (simp add: check_file_content_def split_def Let_def test_string_facts)

lemma cfc_changed:
  assumes "sys_open K path O_RDONLY s = (fd, s1)" and "0 \<le> fd"
    and "fst (sys_read K fd 255 s1) = Some bs" and "bs \<noteq> test_string"
  shows "fst (check_file_content K path s) = 1"
proof (cases "length bs = 13")
  case True
  then have "strncmp test_string bs 13 \<noteq> 0"
    using strncmp_eq_0_iff [of test_string 13 bs] assms(4) by (auto simp: test_string_facts)
  with assms show ?thesis
    by (simp add: check_file_content_def split_def Let_def test_string_facts)
next
  case False
  with assms show ?thesis
    by (simp add: check_file_content_def split_def Let_def test_string_facts)
qed

lemma out_cfc [simp]: "out (snd (check_file_content K path s)) = out s"
  by (simp add: check_file_content_def split_def Let_def)

lemma main_after_write_path:
  assumes "create_test_file K test_file s = (c, s1)"
    and "check_dirty_pipe K test_file 6 ''mammy'' s1 = (Some d, s2)"
  shows "main argc argv K s =
    (let (ret, s3) = check_file_content K test_file s2 in
     if ret = - 1 then (Exited EXIT_FAILURE, s3)
     else
       let s4 = (if ret = 0 then printf ''You are safe\<newline>'' s3
                 else if ret = 1 then printf ''VULNERABLE!\<newline>'' s3
                 else s3)
       in (Exited 0, snd (sys_unlink K ''/tmp/testfile.txt'' s4)))"
proof -
  have "\<not> c < 0"
    using ctf_status [of K test_file s] assms(1) by simp
  moreover have "\<not> d < 0"
    using cdp_status [of K test_file 6 "''mammy''" s1 d] assms(2)
    by (auto simp: EXIT_FAILURE_def EXIT_SUCCESS_def)
  ultimately show ?thesis
    using assms by (simp add: main_def Let_def)
qed

lemma strncmp_unfold:
  "strncmp s1 s2 n =
     (if n = 0 then 0
      else if peek s1 \<noteq> peek s2 then int (of_char (peek s1)) - int (of_char (peek s2))
      else if peek s1 = NUL then 0
      else strncmp (tl s1) (tl s2) (n - 1))"
  by (cases n) simp_all

lemmas run_defs = strncmp_unfold main_def create_test_file_def check_dirty_pipe_def check_file_content_def
  prepare_pipe_def sys_defs called_def perror_def fprintf_stderr_def printf_def
  scripted_def start_def run_def test_string_def test_file_def
  EXIT_FAILURE_def EXIT_SUCCESS_def PAGE_SIZE_def strlen_def NUL_def sizeof_buffer_def
  peek_def mode_0444_def prepare_pipe_fill.simps prepare_pipe_drain.simps Let_def split_def

lemma sys_open_state:
  assumes "sys_open K path how s = (r, s1)"
  shows "trace s1 = trace s @ [(Open path how, RInt r)]" "out s1 = out s" "err s1 = err s"
  using assms by (auto simp: sys_open_def called_def split_def Let_def)

lemma sys_fstat_state:
  assumes "sys_fstat K fd s = (r, s1)"
  shows "trace s1 = trace s @ [(Fstat fd, RSize r)]" "out s1 = out s" "err s1 = err s"
  using assms by (auto simp: sys_fstat_def called_def split_def Let_def)

lemma stopped_after_fstat:
  assumes "sys_open K path O_RDONLY s = (fd, s1)" and "sys_fstat K fd s1 = (st, s2)"
  shows "calls_of s (fprintf_stderr m s2) = [(Open path O_RDONLY, RInt fd), (Fstat fd, RSize st)]"
    and "err s2 = err s" and "out s2 = out s"
  using sys_open_state [OF assms(1)] sys_fstat_state [OF assms(2)]
  by (simp_all add: calls_of_def)

lemma validated_word:
  fixes offset :: loff_t
  assumes "sint offset + int n \<le> (sint offset div PAGE_SIZE + 1) * PAGE_SIZE"
    and "(sint offset div PAGE_SIZE + 1) * PAGE_SIZE < 2 ^ 63"
  shows "\<not> (offset OR word_of_int (PAGE_SIZE - 1)) + 1 <s offset + of_nat n"
    and "sint (offset + of_nat n) = sint offset + int n"
proof -
  from assms have e: "sint offset + int n < 2 ^ 63" by linarith
  from crossing_iff [OF assms(2) e] assms(1)
  show "\<not> (offset OR word_of_int (PAGE_SIZE - 1)) + 1 <s offset + of_nat n"
    by linarith
  from e show "sint (offset + of_nat n) = sint offset + int n"
    by (rule sint_end_offset)
qed

lemma after_fstat:
  assumes "\<not> PAGE_SIZE dvd sint offset"
    and "sint offset + int (strlen data) \<le> (sint offset div PAGE_SIZE + 1) * PAGE_SIZE"
    and "(sint offset div PAGE_SIZE + 1) * PAGE_SIZE < 2 ^ 63"
    and "sys_open K path O_RDONLY s = (fd, s1)" and "0 \<le> fd"
    and "sys_fstat K fd s1 = (Some sz, s2)"
  shows "(sint sz < sint offset \<longrightarrow>
            fails_with s (check_dirty_pipe K path offset data s) OffsetOutOfRange \<and>
            calls_of s (snd (check_dirty_pipe K path offset data s)) =
              [(Open path O_RDONLY, RInt fd), (Fstat fd, RSize (Some sz))]) \<and>
         (sint offset \<le> sint sz \<and> sint sz < sint offset + int (strlen data) \<longrightarrow>
            fails_with s (check_dirty_pipe K path offset data s) WouldGrowFile \<and>
            calls_of s (snd (check_dirty_pipe K path offset data s)) =
              [(Open path O_RDONLY, RInt fd), (Fstat fd, RSize (Some sz))])"
proof (intro conjI impI)
  note v = validated_word [OF assms(2,3)]
  note st = stopped_after_fstat [OF assms(4,6)]
  {
    assume "sint sz < sint offset"
    then have "sz <s offset" by (simp add: word_sless_alt)
    note r = cdp_offset_outside [OF assms(1) v(1) assms(4,5,6) this]
    show "fails_with s (check_dirty_pipe K path offset data s) OffsetOutOfRange"
      by (simp add: r fails_with_def st)
    show "calls_of s (snd (check_dirty_pipe K path offset data s)) =
        [(Open path O_RDONLY, RInt fd), (Fstat fd, RSize (Some sz))]"
      by (simp add: r st)
  }
  {
    assume "sint offset \<le> sint sz \<and> sint sz < sint offset + int (strlen data)"
    then have "\<not> sz <s offset" "sz <s offset + of_nat (strlen data)"
      by (simp_all add: word_sless_alt v(2))
    note r = cdp_would_grow [OF assms(1) v(1) assms(4,5,6) this]
    show "fails_with s (check_dirty_pipe K path offset data s) WouldGrowFile"
      by (simp add: r fails_with_def st)
    show "calls_of s (snd (check_dirty_pipe K path offset data s)) =
        [(Open path O_RDONLY, RInt fd), (Fstat fd, RSize (Some sz))]"
      by (simp add: r st)
  }
qed

lemma calls_satisfy:
  assumes "only_calls P s s'" and "c \<in> fst ` set (calls_of s s')"
  shows "P c"
  using assms by (auto simp: only_calls_def list_all_iff)

lemma sint_pred:
  fixes offset :: loff_t
  assumes "1 \<le> sint offset"
  shows "sint (offset - 1) = sint offset - 1"
proof -
  have "offset - 1 = word_of_int (sint offset - 1)" by simp
  moreover have "sint offset < 2 ^ 63" using sint_lt [of offset] by simp
  ultimately show ?thesis
    using assms by (simp only: sint_of_int_self)
qed

lemma only_calls_ctf:
  assumes "only_calls P s0 s" and "P (Open path (O_CREAT_WRONLY mode_0444))"
    and "\<And>fd. P (Write fd (take (strlen test_string) test_string))" and "\<And>fd. P (Close fd)"
  shows "only_calls P s0 (snd (create_test_file K path s))"
proof -
  have 1: "only_calls P s0 (snd (sys_open K path (O_CREAT_WRONLY mode_0444) s))"
    by (intro only_calls_sys assms)
  have 2: "only_calls P s0 (snd (sys_write K fd (take (strlen test_string) test_string)
      (snd (sys_open K path (O_CREAT_WRONLY mode_0444) s))))" for fd
    by (intro only_calls_sys 1 assms)
  have 3: "only_calls P s0 (snd (sys_close K fd' (snd (sys_write K fd
      (take (strlen test_string) test_string)
      (snd (sys_open K path (O_CREAT_WRONLY mode_0444) s))))))" for fd fd'
    by (intro only_calls_sys 2 assms)
  show ?thesis
    using 1 2 3 by (simp add: create_test_file_def split_def Let_def only_calls_io)
qed

lemma only_calls_cfc:
  assumes "only_calls P s0 s" and "P (Open path O_RDONLY)"
    and "\<And>fd. P (Read fd 255)" and "\<And>fd. P (Close fd)"
  shows "only_calls P s0 (snd (check_file_content K path s))"
proof -
  have 1: "only_calls P s0 (snd (sys_open K path O_RDONLY s))"
    by (intro only_calls_sys assms)
  have 2: "only_calls P s0 (snd (sys_close K fd' (snd (sys_read K fd 255
      (snd (sys_open K path O_RDONLY s))))))" for fd fd'
    by (intro only_calls_sys 1 assms)
  show ?thesis
    using 1 2 by (simp add: check_file_content_def split_def Let_def only_calls_io)
qed

lemma cdp_call_fixed_target:
  "cdp_call test_file 6 ''mammy'' c \<Longrightarrow> fixed_target c"
  by (cases c) (auto simp: cdp_call_def fixed_target_def test_file_def strlen_def NUL_def)

lemma only_calls_main: "only_calls fixed_target s (snd (main argc argv K s))"
proof -
  let ?c = "create_test_file K test_file s"
  let ?d = "check_dirty_pipe K test_file 6 ''mammy'' (snd ?c)"
  let ?f = "check_file_content K test_file (snd ?d)"
  have 1: "only_calls fixed_target s (snd ?c)"
    by (intro only_calls_ctf only_calls_refl)
       (simp_all add: fixed_target_def test_file_def test_string_def strlen_def NUL_def)
  have "only_calls fixed_target (snd ?c) (snd ?d)"
    using only_calls_cdp cdp_call_fixed_target by (rule only_calls_mono)
  with 1 have 2: "only_calls fixed_target s (snd ?d)"
    by (rule only_calls_trans)
  have 3: "only_calls fixed_target s (snd ?f)"
    by (intro only_calls_cfc 2) (simp_all add: fixed_target_def test_file_def)
  have 4: "only_calls fixed_target s (snd (sys_unlink K ''/tmp/testfile.txt'' s'))"
    if "only_calls fixed_target s s'" for s'
    using that by (rule only_calls_sys) (simp add: fixed_target_def)
  show ?thesis
    using 1 2 3 4 [OF 3] 4 [OF only_calls_io(3) [OF 3]]
    by (simp add: main_def split_def Let_def split: option.split)
qed

lemma chunk_le:
  fixes r :: unsigned
  shows "unat (r - (if sizeof_buffer < r then sizeof_buffer else r)) +
         unat (if sizeof_buffer < r then sizeof_buffer else r) = unat r"
proof (cases "sizeof_buffer < r")
  case True
  then have "sizeof_buffer \<le> r" by simp
  then have "unat (r - sizeof_buffer) = unat r - unat sizeof_buffer"
    by (rule unat_sub)
  moreover from \<open>sizeof_buffer \<le> r\<close> have "unat sizeof_buffer \<le> unat r"
    by (simp add: word_le_nat_alt)
  ultimately show ?thesis using True by simp
next
  case False
  then show ?thesis by simp
qed

lemma complete_writes:
  "list_all (fill_chunk fd) ws \<Longrightarrow> list_all complete ws \<Longrightarrow>
   bytes_written fd ws = int (sum_list (write_sizes fd ws))"
proof (induction ws)
  case Nil
  then show ?case by simp
next
  case (Cons e ws)
  obtain c x where e: "e = (c, x)" by (cases e)
  from Cons.prems(1) e obtain buf y where "c = Write fd buf" "x = RInt y" "0 < length buf"
    by (cases c; cases x) auto
  with Cons e show ?case by simp
qed

lemma complete_reads:
  "list_all (drain_chunk fd) rs \<Longrightarrow> list_all complete rs \<Longrightarrow>
   bytes_read fd rs = int (sum_list (read_sizes fd rs))"
proof (induction rs)
  case Nil
  then show ?case by simp
next
  case (Cons e rs)
  obtain c x where e: "e = (c, x)" by (cases e)
  from Cons.prems(1) e obtain n y where c: "c = Read fd n" "x = RData y"
    by (cases c; cases x) auto
  with Cons.prems(2) e obtain bs where "y = Some bs" "length bs = n"
    by (cases y) auto
  with Cons e c show ?case by simp
qed

lemma unat_capacity:
  assumes "0 \<le> c" and "c < 2 ^ 32"
  shows "int (unat (word_of_int c :: unsigned)) = c"
  using assms by (simp add: unat_eq_nat_uint uint_word_of_int take_bit_eq_mod)

lemma replay_write:
  "replay K ((Write fd buf, RInt (fst (k_write K fd buf k))) # es) k =
   replay K es (snd (k_write K fd buf k))"
  by (simp add: split_def Let_def)

lemma replay_read:
  "replay K ((Read fd n, RData (map_option (take n) (fst (k_read K fd n k)))) # es) k =
   replay K es (snd (k_read K fd n k))"
  by (simp add: split_def Let_def)

lemma fill_replay:
  "\<exists>ws. trace (prepare_pipe_fill K fd r s) = trace s @ ws \<and> list_all (fill_chunk fd) ws \<and>
        sum_list (write_sizes fd ws) = unat r \<and>
        replay K ws (kern s) = Some (kern (prepare_pipe_fill K fd r s)) \<and>
        (pipe_like K level p0 fd cap \<and> level (kern s) + unat r \<le> cap \<longrightarrow>
           list_all complete ws \<and>
           level (kern (prepare_pipe_fill K fd r s)) = level (kern s) + unat r)"
proof (induction K fd r s rule: prepare_pipe_fill.induct)
  case (1 K fd r s)
  show ?case
  proof (cases "0 < r")
    case True
    let ?n = "if sizeof_buffer < r then sizeof_buffer else r"
    let ?buf = "replicate (unat ?n) NUL"
    let ?w = "k_write K fd ?buf (kern s)"
    let ?s' = "snd (sys_write K fd ?buf s)"
    let ?e = "(Write fd ?buf, RInt (fst ?w))"
    have tr: "trace ?s' = trace s @ [?e]" and k: "kern ?s' = snd ?w"
      by (simp_all add: sys_write_def called_def split_def Let_def)
    from "1.IH" [OF True refl] obtain ws where
      ws: "trace (prepare_pipe_fill K fd (r - ?n) ?s') = trace ?s' @ ws"
        "list_all (fill_chunk fd) ws" "sum_list (write_sizes fd ws) = unat (r - ?n)"
        "replay K ws (kern ?s') = Some (kern (prepare_pipe_fill K fd (r - ?n) ?s'))"
        "pipe_like K level p0 fd cap \<and> level (kern ?s') + unat (r - ?n) \<le> cap \<longrightarrow>
           list_all complete ws \<and>
           level (kern (prepare_pipe_fill K fd (r - ?n) ?s')) = level (kern ?s') + unat (r - ?n)"
      by blast
    have e: "prepare_pipe_fill K fd r s = prepare_pipe_fill K fd (r - ?n) ?s'"
      using True by (subst prepare_pipe_fill.simps) (simp only: Let_def if_True)
    note sum = chunk_le [of r]
    have c: "fill_chunk fd ?e"
      using chunk_bounds [OF True] by simp
    have 1: "trace (prepare_pipe_fill K fd r s) = trace s @ (?e # ws)"
      using ws(1) tr by (simp only: e) simp
    have 2: "list_all (fill_chunk fd) (?e # ws)"
      using c ws(2) by simp
    have 3: "sum_list (write_sizes fd (?e # ws)) = unat r"
      using ws(3) sum by simp
    have 4: "replay K (?e # ws) (kern s) = Some (kern (prepare_pipe_fill K fd r s))"
      by (simp only: e replay_write ws(4) [unfolded k])
    have 5: "list_all complete (?e # ws) \<and>
        level (kern (prepare_pipe_fill K fd r s)) = level (kern s) + unat r"
      if p: "pipe_like K level p0 fd cap" and l: "level (kern s) + unat r \<le> cap"
    proof -
      from l sum have "level (kern s) + length ?buf \<le> cap" by simp
      with p have w: "fst ?w = int (length ?buf)" "level (snd ?w) = level (kern s) + length ?buf"
        unfolding pipe_like_def by blast+
      from w(2) l sum have "level (kern ?s') + unat (r - ?n) \<le> cap"
        by (simp add: k)
      with ws(5) p have "list_all complete ws"
        "level (kern (prepare_pipe_fill K fd (r - ?n) ?s')) = level (kern ?s') + unat (r - ?n)"
        by blast+
      with w sum show ?thesis
        by (simp only: e) (simp add: k)
    qed
    from 1 2 3 4 5 show ?thesis by blast
  next
    case False
    then have "prepare_pipe_fill K fd r s = s"
      by (subst prepare_pipe_fill.simps) (simp only: if_False)
    moreover from False have "unat r = 0"
      by (simp add: word_less_nat_alt)
    ultimately show ?thesis by simp
  qed
qed

lemma drain_replay:
  "\<exists>rs. trace (prepare_pipe_drain K fd r s) = trace s @ rs \<and> list_all (drain_chunk fd) rs \<and>
        sum_list (read_sizes fd rs) = unat r \<and>
        replay K rs (kern s) = Some (kern (prepare_pipe_drain K fd r s)) \<and>
        (pipe_like K level fd p1 cap \<and> unat r \<le> level (kern s) \<longrightarrow>
           list_all complete rs \<and>
           level (kern (prepare_pipe_drain K fd r s)) = level (kern s) - unat r)"
proof (induction K fd r s rule: prepare_pipe_drain.induct)
  case (1 K fd r s)
  show ?case
  proof (cases "0 < r")
    case True
    let ?n = "if sizeof_buffer < r then sizeof_buffer else r"
    let ?w = "k_read K fd (unat ?n) (kern s)"
    let ?s' = "snd (sys_read K fd (unat ?n) s)"
    let ?e = "(Read fd (unat ?n), RData (map_option (take (unat ?n)) (fst ?w)))"
    have tr: "trace ?s' = trace s @ [?e]" and k: "kern ?s' = snd ?w"
      by (simp_all add: sys_read_def called_def split_def Let_def)
    from "1.IH" [OF True refl] obtain rs where
      rs: "trace (prepare_pipe_drain K fd (r - ?n) ?s') = trace ?s' @ rs"
        "list_all (drain_chunk fd) rs" "sum_list (read_sizes fd rs) = unat (r - ?n)"
        "replay K rs (kern ?s') = Some (kern (prepare_pipe_drain K fd (r - ?n) ?s'))"
        "pipe_like K level fd p1 cap \<and> unat (r - ?n) \<le> level (kern ?s') \<longrightarrow>
           list_all complete rs \<and>
           level (kern (prepare_pipe_drain K fd (r - ?n) ?s')) = level (kern ?s') - unat (r - ?n)"
      by blast
    have e: "prepare_pipe_drain K fd r s = prepare_pipe_drain K fd (r - ?n) ?s'"
      using True by (subst prepare_pipe_drain.simps) (simp only: Let_def if_True)
    note sum = chunk_le [of r]
    have c: "drain_chunk fd ?e"
      using chunk_bounds [OF True] by simp
    have 1: "trace (prepare_pipe_drain K fd r s) = trace s @ (?e # rs)"
      using rs(1) tr by (simp only: e) simp
    have 2: "list_all (drain_chunk fd) (?e # rs)"
      using c rs(2) by simp
    have 3: "sum_list (read_sizes fd (?e # rs)) = unat r"
      using rs(3) sum by simp
    have 4: "replay K (?e # rs) (kern s) = Some (kern (prepare_pipe_drain K fd r s))"
      by (simp only: e replay_read rs(4) [unfolded k])
    have 5: "list_all complete (?e # rs) \<and>
        level (kern (prepare_pipe_drain K fd r s)) = level (kern s) - unat r"
      if p: "pipe_like K level fd p1 cap" and l: "unat r \<le> level (kern s)"
    proof -
      from l sum have "unat ?n \<le> level (kern s)" by simp
      with p have w: "map_option length (fst ?w) = Some (unat ?n)"
        "level (snd ?w) = level (kern s) - unat ?n"
        unfolding pipe_like_def by blast+
      from w(1) obtain bs where bs: "fst ?w = Some bs" "length bs = unat ?n"
        by (cases "fst ?w") auto
      from w(2) l sum have "unat (r - ?n) \<le> level (kern ?s')"
        by (simp add: k)
      with rs(5) p have "list_all complete rs"
        "level (kern (prepare_pipe_drain K fd (r - ?n) ?s')) = level (kern ?s') - unat (r - ?n)"
        by blast+
      with w(2) bs sum l show ?thesis
        by (simp only: e) (simp add: k)
    qed
    from 1 2 3 4 5 show ?thesis by blast
  next
    case False
    then have "prepare_pipe_drain K fd r s = s"
      by (subst prepare_pipe_drain.simps) (simp only: if_False)
    moreover from False have "unat r = 0"
      by (simp add: word_less_nat_alt)
    ultimately show ?thesis by simp
  qed
qed

section \<open>The verdict of the harness\<close>

text \<open>
  Claim C1, as the code has it. Take a run in which the artifact is created and the write
  sequence completes: \<open>create_test_file\<close> returns 0 and \<open>check_dirty_pipe\<close> returns
  \<open>EXIT_SUCCESS\<close>. When the artifact cannot be opened for the read-back, no verdict is
  printed. When it is opened and \<open>read\<close> gives exactly the 13 bytes of the original
  content, the verdict is \<open>Safe\<close>. When \<open>read\<close> gives any other content the verdict is
  \<open>Vulnerable\<close>: the content is compared with the original only, never with the payload.
\<close>

theorem readback_verdict:
  assumes "create_test_file K test_file s = (0, s1)"
    and "check_dirty_pipe K test_file 6 ''mammy'' s1 = (Some EXIT_SUCCESS, s2)"
    and "sys_open K test_file O_RDONLY s2 = (fd, s3)"
  shows "(fd < 0 \<longrightarrow> verdict s (main argc argv K s) = Error) \<and>
         (0 \<le> fd \<and> fst (sys_read K fd 255 s3) = Some test_string \<longrightarrow>
            verdict s (main argc argv K s) = Safe) \<and>
         (0 \<le> fd \<and> fst (sys_read K fd 255 s3) = Some bs \<and> bs \<noteq> test_string \<longrightarrow>
            verdict s (main argc argv K s) = Vulnerable)"
proof -
  note m = main_after_write_path [OF assms(1,2), of argc argv]
  have o1: "out s1 = out s" using out_ctf [of K test_file s] assms(1) by simp
  have o2: "out s2 = out s"
    using out_cdp [of K test_file 6 "''mammy''" s1] assms(2) o1 by simp
  have o3: "out (snd (check_file_content K test_file s2)) = out s"
    using o2 by simp
  have "verdict s (main argc argv K s) = Error" if "fd < 0"
    using cfc_open_failed [OF assms(3) that] o3
    by (simp add: m verdict_def)
  moreover have "verdict s (main argc argv K s) = Safe"
    if "0 \<le> fd" "fst (sys_read K fd 255 s3) = Some test_string"
    using cfc_unchanged [OF assms(3) that] o3
    by (simp add: m verdict_def split_def)
  moreover have "verdict s (main argc argv K s) = Vulnerable"
    if "0 \<le> fd" "fst (sys_read K fd 255 s3) = Some bs" "bs \<noteq> test_string"
    using cfc_changed [OF assms(3) that] o3
    by (simp add: m verdict_def split_def)
  ultimately show ?thesis by blast
qed

theorem readback_verdict_witness:
  "verdict (start (run 65536 test_string))
     (main 1 [''ditty''] scripted (start (run 65536 test_string))) = Safe \<and>
   verdict (start (run 65536 (injected test_string 6 ''mammy'')))
     (main 1 [''ditty''] scripted (start (run 65536 (injected test_string 6 ''mammy'')))) = Vulnerable \<and>
   verdict (start ((run 65536 test_string)\<lparr>opens := [3, 3]\<rparr>))
     (main 1 [''ditty''] scripted (start ((run 65536 test_string)\<lparr>opens := [3, 3]\<rparr>))) = Error"
proof (intro conjI)
  let ?s = "start (run 65536 test_string)"
  let ?c = "create_test_file scripted test_file ?s"
  let ?d = "check_dirty_pipe scripted test_file 6 ''mammy'' (snd ?c)"
  let ?o = "sys_open scripted test_file O_RDONLY (snd ?d)"
  have c: "?c = (0, snd ?c)"
    by (simp add: prod_eq_iff run_defs)
  have d: "?d = (Some EXIT_SUCCESS, snd ?d)"
    by (simp add: prod_eq_iff run_defs)
  have "0 \<le> fst ?o \<and> fst (sys_read scripted (fst ?o) 255 (snd ?o)) = Some test_string"
    by (simp add: run_defs)
  with readback_verdict [OF c d surjective_pairing, where argc = 1 and argv = "[''ditty'']"]
  show "verdict ?s (main 1 [''ditty''] scripted ?s) = Safe"
    by blast
next
  let ?s = "start (run 65536 (injected test_string 6 ''mammy''))"
  let ?c = "create_test_file scripted test_file ?s"
  let ?d = "check_dirty_pipe scripted test_file 6 ''mammy'' (snd ?c)"
  let ?o = "sys_open scripted test_file O_RDONLY (snd ?d)"
  have c: "?c = (0, snd ?c)"
    by (simp add: prod_eq_iff run_defs)
  have d: "?d = (Some EXIT_SUCCESS, snd ?d)"
    by (simp add: prod_eq_iff run_defs)
  have "0 \<le> fst ?o \<and>
      fst (sys_read scripted (fst ?o) 255 (snd ?o)) = Some (injected test_string 6 ''mammy'') \<and>
      injected test_string 6 ''mammy'' \<noteq> test_string"
    by (simp add: run_defs injected_def)
  with readback_verdict [OF c d surjective_pairing, where argc = 1 and argv = "[''ditty'']"
      and bs = "injected test_string 6 ''mammy''"]
  show "verdict ?s (main 1 [''ditty''] scripted ?s) = Vulnerable"
    by blast
next
  let ?s = "start ((run 65536 test_string)\<lparr>opens := [3, 3]\<rparr>)"
  let ?c = "create_test_file scripted test_file ?s"
  let ?d = "check_dirty_pipe scripted test_file 6 ''mammy'' (snd ?c)"
  let ?o = "sys_open scripted test_file O_RDONLY (snd ?d)"
  have c: "?c = (0, snd ?c)"
    by (simp add: prod_eq_iff run_defs)
  have d: "?d = (Some EXIT_SUCCESS, snd ?d)"
    by (simp add: prod_eq_iff run_defs)
  have "fst ?o < 0"
    by (simp add: run_defs)
  with readback_verdict [OF c d surjective_pairing, where argc = 1 and argv = "[''ditty'']"]
  show "verdict ?s (main 1 [''ditty''] scripted ?s) = Error"
    by blast
qed

text \<open>
  Claim C1 as stated fails: the write sequence completes, the read-back finds the five
  bytes \<open>Hello\<close>, which are neither the original content nor the original with the payload
  at offset 6, and the verdict is \<open>Vulnerable\<close>, not \<open>Error\<close>.
\<close>

theorem verdict_not_payload_counterexample:
  "fst (check_dirty_pipe scripted test_file 6 ''mammy''
         (snd (create_test_file scripted test_file (start (run 65536 ''Hello''))))) = Some EXIT_SUCCESS \<and>
   ''Hello'' \<noteq> test_string \<and>
   ''Hello'' \<noteq> injected test_string 6 ''mammy'' \<and>
   verdict (start (run 65536 ''Hello''))
     (main 1 [''ditty''] scripted (start (run 65536 ''Hello''))) = Vulnerable"
  by (simp add: run_defs injected_def verdict_def)

section \<open>The exit status\<close>

text \<open>
  Claim C2 at an input where the code departs from it: \<open>splice\<close> fails on a host whose
  other calls all succeed. \<open>check_dirty_pipe\<close> prints its diagnostic and returns
  \<open>EXIT_FAILURE\<close>, which is 1; \<open>main\<close> tests for a value below 0, goes on, finds the
  artifact unchanged, prints \<open>You are safe\<close> and exits with status 0.
\<close>

theorem splice_failure_reported_safe:
  "fst (main 1 [''ditty''] scripted (start ((run 65536 test_string)\<lparr>splice_ret := - 1\<rparr>)))
     = Exited 0 \<and>
   out (snd (main 1 [''ditty''] scripted (start ((run 65536 test_string)\<lparr>splice_ret := - 1\<rparr>))))
     = [''You are safe\<newline>''] \<and>
   err (snd (main 1 [''ditty''] scripted (start ((run 65536 test_string)\<lparr>splice_ret := - 1\<rparr>))))
     = [Perror ''splice failed'']"
  by (simp add: run_defs)

section \<open>The order of the checks\<close>

text \<open>
  Claim C4. An offset that is a multiple of the page size is refused as
  \<open>PageBoundaryOffset\<close>, whatever the kernel, the path and the payload, and before any
  system call. Any other offset whose payload ends beyond the next page boundary, the
  offset rounded up to a multiple of the page size, is refused as
  \<open>CrossesPageBoundary\<close>, again before any system call. The end of the payload is taken
  to fit in \<open>loff_t\<close>: the sum overflows otherwise, which C leaves undefined.
\<close>

theorem validation_order:
  "(PAGE_SIZE dvd sint offset \<longrightarrow>
      fails_with s (check_dirty_pipe K path offset data s) PageBoundaryOffset \<and>
      calls_of s (snd (check_dirty_pipe K path offset data s)) = []) \<and>
   (\<not> PAGE_SIZE dvd sint offset \<and> sint offset + int (strlen data) < 2 ^ 63 \<and>
    (sint offset div PAGE_SIZE + 1) * PAGE_SIZE < sint offset + int (strlen data) \<longrightarrow>
      fails_with s (check_dirty_pipe K path offset data s) CrossesPageBoundary \<and>
      calls_of s (snd (check_dirty_pipe K path offset data s)) = [])"
proof (intro conjI impI)
  assume "PAGE_SIZE dvd sint offset"
  note r = cdp_page_boundary [OF this, of K path data s]
  show "fails_with s (check_dirty_pipe K path offset data s) PageBoundaryOffset"
    by (simp add: r fails_with_def)
  show "calls_of s (snd (check_dirty_pipe K path offset data s)) = []"
    by (simp add: r calls_of_def)
next
  assume h: "\<not> PAGE_SIZE dvd sint offset \<and> sint offset + int (strlen data) < 2 ^ 63 \<and>
    (sint offset div PAGE_SIZE + 1) * PAGE_SIZE < sint offset + int (strlen data)"
  then have "(sint offset div PAGE_SIZE + 1) * PAGE_SIZE < 2 ^ 63" by linarith
  from crossing_iff [OF this, of "strlen data"] h
  have "(offset OR word_of_int (PAGE_SIZE - 1)) + 1 <s offset + of_nat (strlen data)"
    by blast
  with h have r: "check_dirty_pipe K path offset data s =
      (Some EXIT_FAILURE, fprintf_stderr ''Sorry, cannot write across a page boundary\<newline>'' s)"
    by (intro cdp_crosses) simp_all
  show "fails_with s (check_dirty_pipe K path offset data s) CrossesPageBoundary"
    by (simp add: r fails_with_def)
  show "calls_of s (snd (check_dirty_pipe K path offset data s)) = []"
    by (simp add: r calls_of_def)
qed

theorem validation_order_witness:
  "PAGE_SIZE dvd sint (8192 :: loff_t) \<and>
   fails_with (start (run 65536 test_string))
     (check_dirty_pipe scripted test_file 8192 ''mammy'' (start (run 65536 test_string)))
     PageBoundaryOffset \<and>
   \<not> PAGE_SIZE dvd sint (4093 :: loff_t) \<and>
   (sint (4093 :: loff_t) div PAGE_SIZE + 1) * PAGE_SIZE < sint (4093 :: loff_t) + int (strlen ''mammy'') \<and>
   fails_with (start (run 65536 test_string))
     (check_dirty_pipe scripted test_file 4093 ''mammy'' (start (run 65536 test_string)))
     CrossesPageBoundary"
  using validation_order [where offset = 8192 and s = "start (run 65536 test_string)"
      and K = scripted and path = test_file and data = "''mammy''"]
    validation_order [where offset = 4093 and s = "start (run 65536 test_string)"
      and K = scripted and path = test_file and data = "''mammy''"]
  by (simp add: PAGE_SIZE_def strlen_def NUL_def)

section \<open>The checks against the size of the file\<close>

text \<open>
  Claim C5, as the code has it. The two checks against the size come fifth and sixth:
  they are reached by a request that has passed the two page checks and whose file was
  opened and measured. Such a request is refused as \<open>OffsetOutOfRange\<close> when the offset
  is beyond the size, and as \<open>WouldGrowFile\<close> when the offset is not but the payload
  ends beyond the size. In both cases the only system calls made are the read-only
  \<open>open\<close> and \<open>fstat\<close>: there is no pipe, no splice and no write.
\<close>

theorem size_checks:
  assumes "\<not> PAGE_SIZE dvd sint offset"
    and "sint offset + int (strlen data) \<le> (sint offset div PAGE_SIZE + 1) * PAGE_SIZE"
    and "(sint offset div PAGE_SIZE + 1) * PAGE_SIZE < 2 ^ 63"
    and "sys_open K path O_RDONLY s = (fd, s1)" and "0 \<le> fd"
    and "sys_fstat K fd s1 = (Some sz, s2)"
  shows "(sint sz < sint offset \<longrightarrow>
            fails_with s (check_dirty_pipe K path offset data s) OffsetOutOfRange \<and>
            calls_of s (snd (check_dirty_pipe K path offset data s)) =
              [(Open path O_RDONLY, RInt fd), (Fstat fd, RSize (Some sz))]) \<and>
         (sint offset \<le> sint sz \<and> sint sz < sint offset + int (strlen data) \<longrightarrow>
            fails_with s (check_dirty_pipe K path offset data s) WouldGrowFile \<and>
            calls_of s (snd (check_dirty_pipe K path offset data s)) =
              [(Open path O_RDONLY, RInt fd), (Fstat fd, RSize (Some sz))])"
  by (rule after_fstat [OF assms])

theorem size_checks_witness:
  "fails_with (start (run 65536 test_string))
     (check_dirty_pipe scripted test_file 20 ''x'' (start (run 65536 test_string)))
     OffsetOutOfRange \<and>
   calls_of (start (run 65536 test_string))
     (snd (check_dirty_pipe scripted test_file 20 ''x'' (start (run 65536 test_string)))) =
     [(Open test_file O_RDONLY, RInt 3), (Fstat 3, RSize (Some 13))] \<and>
   fails_with (start (run 65536 test_string))
     (check_dirty_pipe scripted test_file 10 ''mammy'' (start (run 65536 test_string)))
     WouldGrowFile"
proof -
  let ?s = "start (run 65536 test_string)"
  let ?o = "sys_open scripted test_file O_RDONLY ?s"
  have f: "sys_fstat scripted (fst ?o) (snd ?o) = (Some 13, snd (sys_fstat scripted (fst ?o) (snd ?o)))"
    by (simp add: prod_eq_iff run_defs)
  have fd: "0 \<le> fst ?o" "fst ?o = 3"
    by (simp_all add: run_defs)
  have a: "\<not> PAGE_SIZE dvd sint (20 :: loff_t)"
    "sint (20 :: loff_t) + int (strlen ''x'') \<le> (sint (20 :: loff_t) div PAGE_SIZE + 1) * PAGE_SIZE"
    "(sint (20 :: loff_t) div PAGE_SIZE + 1) * PAGE_SIZE < 2 ^ 63"
    by (simp_all add: PAGE_SIZE_def strlen_def NUL_def)
  have b: "\<not> PAGE_SIZE dvd sint (10 :: loff_t)"
    "sint (10 :: loff_t) + int (strlen ''mammy'') \<le> (sint (10 :: loff_t) div PAGE_SIZE + 1) * PAGE_SIZE"
    "(sint (10 :: loff_t) div PAGE_SIZE + 1) * PAGE_SIZE < 2 ^ 63"
    by (simp_all add: PAGE_SIZE_def strlen_def NUL_def)
  have c: "sint (13 :: loff_t) < sint (20 :: loff_t)"
    "sint (10 :: loff_t) \<le> sint (13 :: loff_t) \<and> sint (13 :: loff_t) < sint (10 :: loff_t) + int (strlen ''mammy'')"
    by (simp_all add: strlen_def NUL_def)
  from size_checks [OF a surjective_pairing fd(1) f] size_checks [OF b surjective_pairing fd(1) f] c fd(2)
  show ?thesis by simp
qed

text \<open>
  Claim C5 as stated fails: offset 8192 is beyond the 13 bytes of the file, and the
  request is refused as \<open>PageBoundaryOffset\<close>, not as \<open>OffsetOutOfRange\<close>.
\<close>

theorem offset_beyond_size_counterexample:
  "stat (run 65536 test_string) = Some 13 \<and>
   sint (13 :: loff_t) < sint (8192 :: loff_t) \<and>
   fails_with (start (run 65536 test_string))
     (check_dirty_pipe scripted test_file 8192 ''mammy'' (start (run 65536 test_string)))
     PageBoundaryOffset \<and>
   \<not> fails_with (start (run 65536 test_string))
     (check_dirty_pipe scripted test_file 8192 ''mammy'' (start (run 65536 test_string)))
     OffsetOutOfRange"
  by (simp add: run_defs fails_with_def)

text \<open>
  Claim C3, as the code has it. The fifth check is \<open>offset > st.st_size\<close>, so an offset
  equal to the size passes it. With a payload that is not empty, the request, once past
  the two page checks, is refused by the sixth check as \<open>WouldGrowFile\<close>.
\<close>

theorem offset_at_size_would_grow:
  assumes "\<not> PAGE_SIZE dvd sint offset" and "0 < strlen data"
    and "sint offset + int (strlen data) \<le> (sint offset div PAGE_SIZE + 1) * PAGE_SIZE"
    and "(sint offset div PAGE_SIZE + 1) * PAGE_SIZE < 2 ^ 63"
    and "sys_open K path O_RDONLY s = (fd, s1)" and "0 \<le> fd"
    and "sys_fstat K fd s1 = (Some offset, s2)"
  shows "fails_with s (check_dirty_pipe K path offset data s) WouldGrowFile \<and>
         \<not> fails_with s (check_dirty_pipe K path offset data s) OffsetOutOfRange \<and>
         calls_of s (snd (check_dirty_pipe K path offset data s)) =
           [(Open path O_RDONLY, RInt fd), (Fstat fd, RSize (Some offset))]"
proof -
  from assms(2) have "sint offset \<le> sint offset \<and> sint offset < sint offset + int (strlen data)"
    by simp
  with after_fstat [OF assms(1,3,4,5,6,7)]
  have w: "fails_with s (check_dirty_pipe K path offset data s) WouldGrowFile"
    and c: "calls_of s (snd (check_dirty_pipe K path offset data s)) =
           [(Open path O_RDONLY, RInt fd), (Fstat fd, RSize (Some offset))]"
    by blast+
  from w have "\<not> fails_with s (check_dirty_pipe K path offset data s) OffsetOutOfRange"
    by (simp add: fails_with_def)
  with w c show ?thesis by blast
qed

theorem offset_at_size_would_grow_witness:
  "stat (run 65536 test_string) = Some 13 \<and> 0 < strlen ''x'' \<and>
   fails_with (start (run 65536 test_string))
     (check_dirty_pipe scripted test_file 13 ''x'' (start (run 65536 test_string)))
     WouldGrowFile"
proof -
  let ?s = "start (run 65536 test_string)"
  let ?o = "sys_open scripted test_file O_RDONLY ?s"
  have f: "sys_fstat scripted (fst ?o) (snd ?o) = (Some 13, snd (sys_fstat scripted (fst ?o) (snd ?o)))"
    by (simp add: prod_eq_iff run_defs)
  have fd: "0 \<le> fst ?o"
    by (simp add: run_defs)
  have a: "\<not> PAGE_SIZE dvd sint (13 :: loff_t)" "0 < strlen ''x''"
    "sint (13 :: loff_t) + int (strlen ''x'') \<le> (sint (13 :: loff_t) div PAGE_SIZE + 1) * PAGE_SIZE"
    "(sint (13 :: loff_t) div PAGE_SIZE + 1) * PAGE_SIZE < 2 ^ 63"
    by (simp_all add: PAGE_SIZE_def strlen_def NUL_def)
  from offset_at_size_would_grow [OF a surjective_pairing fd f] a(2)
  show ?thesis by (simp add: run_def)
qed

text \<open>
  Claim C3 as stated fails: with a file of 13 bytes, offset 13 and a payload of one byte,
  the request is refused as \<open>WouldGrowFile\<close>, not as \<open>OffsetOutOfRange\<close>.
\<close>

theorem offset_at_size_counterexample:
  "stat (run 65536 test_string) = Some 13 \<and>
   \<not> PAGE_SIZE dvd sint (13 :: loff_t) \<and>
   fails_with (start (run 65536 test_string))
     (check_dirty_pipe scripted test_file 13 ''x'' (start (run 65536 test_string)))
     WouldGrowFile \<and>
   \<not> fails_with (start (run 65536 test_string))
     (check_dirty_pipe scripted test_file 13 ''x'' (start (run 65536 test_string)))
     OffsetOutOfRange"
  by (simp add: run_defs fails_with_def)

section \<open>Descriptors\<close>

text \<open>
  Claim C6, as the code has it. \<open>check_dirty_pipe\<close> and \<open>prepare_pipe\<close> never call
  \<open>close\<close>: whatever the path taken, no descriptor is released before the function
  returns, and the descriptors it obtained stay open until the process ends.
\<close>

theorem check_dirty_pipe_closes_nothing:
  "Close fd \<notin> fst ` set (calls_of s (snd (check_dirty_pipe K path offset data s)))"
proof
  assume "Close fd \<in> fst ` set (calls_of s (snd (check_dirty_pipe K path offset data s)))"
  with only_calls_cdp have "cdp_call path offset data (Close fd)"
    by (rule calls_satisfy)
  then show False by (simp add: cdp_call_def)
qed

theorem check_dirty_pipe_closes_nothing_witness:
  "obtained (Open test_file O_RDONLY, RInt 3) = [3] \<and>
   (Open test_file O_RDONLY, RInt 3) \<in> set (calls_of (start (run 65536 test_string))
     (snd (check_dirty_pipe scripted test_file 6 ''mammy'' (start (run 65536 test_string))))) \<and>
   Close 3 \<notin> fst ` set (calls_of (start (run 65536 test_string))
     (snd (check_dirty_pipe scripted test_file 6 ''mammy'' (start (run 65536 test_string)))))"
  using check_dirty_pipe_closes_nothing [of 3 "start (run 65536 test_string)" scripted
      test_file 6 "''mammy''"]
  by (simp add: run_defs calls_of_def)

text \<open>
  Claim C6 as stated fails: in a run where every call succeeds, the file is descriptor 3
  and the pipe is descriptors 4 and 5, and none of them is closed when
  \<open>check_dirty_pipe\<close> returns \<open>EXIT_SUCCESS\<close>.
\<close>

theorem descriptors_left_open_counterexample:
  "fst (check_dirty_pipe scripted test_file 6 ''mammy'' (start (run 65536 test_string)))
     = Some EXIT_SUCCESS \<and>
   \<not> all_released (calls_of (start (run 65536 test_string))
     (snd (check_dirty_pipe scripted test_file 6 ''mammy'' (start (run 65536 test_string)))))"
  by (simp add: run_defs calls_of_def)

section \<open>Removing the artifact\<close>

text \<open>
  Claim C7 at an input where the code departs from it: the artifact cannot be opened for
  the read-back (here the third \<open>open\<close> of the run fails). \<open>main\<close> returns
  \<open>EXIT_FAILURE\<close> from inside the \<open>switch\<close> and never calls \<open>unlink\<close>.
\<close>

theorem readback_failure_keeps_artifact:
  "fst (main 1 [''ditty''] scripted (start ((run 65536 test_string)\<lparr>opens := [3, 3]\<rparr>)))
     = Exited EXIT_FAILURE \<and>
   err (snd (main 1 [''ditty''] scripted (start ((run 65536 test_string)\<lparr>opens := [3, 3]\<rparr>))))
     = [Perror ''testfile read failed''] \<and>
   Unlink ''/tmp/testfile.txt'' \<notin>
     fst ` set (trace (snd (main 1 [''ditty''] scripted
       (start ((run 65536 test_string)\<lparr>opens := [3, 3]\<rparr>)))))"
  by (simp add: run_defs)

section \<open>Filling and draining the pipe\<close>

text \<open>
  Claim C8. When \<open>pipe\<close> succeeds and \<open>fcntl\<close> reports a capacity (a value that is
  not negative), \<open>prepare_pipe\<close> returns the two descriptors, and the calls it makes
  after \<open>fcntl\<close> are writes of zeros to the producer end, of 4096 bytes at most each and
  of the capacity in all, followed by reads from the consumer end, of 4096 bytes at most
  each and of the capacity in all. The calls are made on the kernel, in this order: the
  kernel is left in the state it reaches by answering the writes, then the reads, as
  recorded. On a kernel whose two descriptors are the ends of a pipe of that capacity,
  empty at first, every write is taken in full and the pipe then holds the capacity;
  every read is served in full, and the pipe is empty when \<open>prepare_pipe\<close> returns.
\<close>

theorem prepare_pipe_fills_and_drains:
  assumes "sys_pipe K s = (Some (p0, p1), s1)"
    and "sys_getpipe_sz K p1 s1 = (capacity, s2)"
    and "0 \<le> capacity" and "capacity < 2 ^ 32"
  shows "\<exists>ws rs kf.
           fst (prepare_pipe K s) = Some (p0, p1) \<and>
           calls_of s2 (snd (prepare_pipe K s)) = ws @ rs \<and>
           list_all (fill_chunk p1) ws \<and> int (sum_list (write_sizes p1 ws)) = capacity \<and>
           list_all (drain_chunk p0) rs \<and> int (sum_list (read_sizes p0 rs)) = capacity \<and>
           replay K ws (kern s2) = Some kf \<and>
           replay K rs kf = Some (kern (snd (prepare_pipe K s))) \<and>
           (pipe_like K level p0 p1 (nat capacity) \<and> level (kern s2) = 0 \<longrightarrow>
              list_all complete ws \<and> bytes_written p1 ws = capacity \<and>
              level kf = nat capacity \<and>
              list_all complete rs \<and> bytes_read p0 rs = capacity \<and>
              level (kern (snd (prepare_pipe K s))) = 0)"
proof -
  let ?sz = "word_of_int capacity :: unsigned"
  let ?f = "prepare_pipe_fill K p1 ?sz s2"
  let ?d = "prepare_pipe_drain K p0 ?sz ?f"
  have p: "prepare_pipe K s = (Some (p0, p1), ?d)"
    using assms(1,2) by (simp add: prepare_pipe_def Let_def)
  have c1: "int (unat ?sz) = capacity"
    by (rule unat_capacity [OF assms(3,4)])
  then have c2: "unat ?sz = nat capacity"
    by (metis nat_int)
  note c = c1 c2
  from fill_replay [of K p1 ?sz s2 level p0 "nat capacity"] obtain ws where
    ws: "trace ?f = trace s2 @ ws" "list_all (fill_chunk p1) ws"
      "sum_list (write_sizes p1 ws) = unat ?sz"
      "replay K ws (kern s2) = Some (kern ?f)"
      "pipe_like K level p0 p1 (nat capacity) \<and> level (kern s2) + unat ?sz \<le> nat capacity \<longrightarrow>
         list_all complete ws \<and> level (kern ?f) = level (kern s2) + unat ?sz"
    by blast
  from drain_replay [of K p0 ?sz ?f level p1 "nat capacity"] obtain rs where
    rs: "trace ?d = trace ?f @ rs" "list_all (drain_chunk p0) rs"
      "sum_list (read_sizes p0 rs) = unat ?sz"
      "replay K rs (kern ?f) = Some (kern ?d)"
      "pipe_like K level p0 p1 (nat capacity) \<and> unat ?sz \<le> level (kern ?f) \<longrightarrow>
         list_all complete rs \<and> level (kern ?d) = level (kern ?f) - unat ?sz"
    by blast
  have 1: "calls_of s2 (snd (prepare_pipe K s)) = ws @ rs"
    by (simp add: p calls_of_def ws(1) rs(1))
  have 2: "int (sum_list (write_sizes p1 ws)) = capacity"
    "int (sum_list (read_sizes p0 rs)) = capacity"
    by (simp_all only: ws(3) rs(3) c(1))
  have 3: "replay K rs (kern ?f) = Some (kern (snd (prepare_pipe K s)))"
    by (simp add: p rs(4))
  have 4: "list_all complete ws \<and> bytes_written p1 ws = capacity \<and>
      level (kern ?f) = nat capacity \<and>
      list_all complete rs \<and> bytes_read p0 rs = capacity \<and>
      level (kern (snd (prepare_pipe K s))) = 0"
    if h: "pipe_like K level p0 p1 (nat capacity) \<and> level (kern s2) = 0"
  proof -
    from h ws(5) c(2) have w: "list_all complete ws" "level (kern ?f) = nat capacity"
      by simp_all
    with h rs(5) c(2) have r: "list_all complete rs" "level (kern ?d) = 0"
      by simp_all
    from complete_writes [OF ws(2) w(1)] have "bytes_written p1 ws = capacity"
      by (simp only: ws(3) c(1))
    moreover from complete_reads [OF rs(2) r(1)] have "bytes_read p0 rs = capacity"
      by (simp only: rs(3) c(1))
    ultimately show ?thesis using w r by (simp add: p)
  qed
  from p have "fst (prepare_pipe K s) = Some (p0, p1)" by simp
  with 1 2 3 4 ws(2,4) rs(2) show ?thesis by blast
qed

theorem prepare_pipe_fills_and_drains_witness:
  "pipe_like (pipe_host 65536) (\<lambda>n. n) 4 5 65536 \<and>
   kern (snd (sys_getpipe_sz (pipe_host 65536) 5 (snd (sys_pipe (pipe_host 65536) (start 0))))) = 0 \<and>
   kern (snd (prepare_pipe (pipe_host 65536) (start 0))) = 0 \<and>
   (\<exists>ws rs kf.
      calls_of (snd (sys_getpipe_sz (pipe_host 65536) 5 (snd (sys_pipe (pipe_host 65536) (start 0)))))
        (snd (prepare_pipe (pipe_host 65536) (start 0))) = ws @ rs \<and>
      list_all (fill_chunk 5) ws \<and> list_all (drain_chunk 4) rs \<and>
      replay (pipe_host 65536) ws 0 = Some kf \<and> kf = 65536 \<and>
      replay (pipe_host 65536) rs kf = Some 0 \<and>
      list_all complete ws \<and> bytes_written 5 ws = 65536 \<and>
      list_all complete rs \<and> bytes_read 4 rs = 65536)"
proof -
  let ?K = "pipe_host 65536"
  let ?p = "sys_pipe ?K (start 0)"
  let ?g = "sys_getpipe_sz ?K 5 (snd ?p)"
  have p: "?p = (Some (4, 5), snd ?p)"
    by (simp add: prod_eq_iff sys_pipe_def pipe_host_def split_def Let_def)
  have g: "?g = (65536, snd ?g)"
    by (simp add: prod_eq_iff sys_getpipe_sz_def pipe_host_def split_def Let_def)
  have l: "pipe_like ?K (\<lambda>n. n) 4 5 65536"
    by (simp add: pipe_like_def pipe_host_def)
  have k: "kern (snd ?g) = 0"
    by (simp add: sys_getpipe_sz_def sys_pipe_def pipe_host_def called_def start_def split_def Let_def)
  from prepare_pipe_fills_and_drains [OF p g, where level = "\<lambda>n. n"] l k obtain ws rs kf where
    r: "calls_of (snd ?g) (snd (prepare_pipe ?K (start 0))) = ws @ rs"
      "list_all (fill_chunk 5) ws" "list_all (drain_chunk 4) rs"
      "replay ?K ws 0 = Some kf" "replay ?K rs kf = Some (kern (snd (prepare_pipe ?K (start 0))))"
      "list_all complete ws" "bytes_written 5 ws = 65536" "kf = 65536"
      "list_all complete rs" "bytes_read 4 rs = 65536"
      "kern (snd (prepare_pipe ?K (start 0))) = 0"
    by force
  with l k show ?thesis by force
qed

section \<open>The offset given to splice\<close>

text \<open>
  Claim C9. When \<open>check_dirty_pipe\<close> is given an offset that is not negative and
  reaches the call of \<open>splice\<close>, the offset is at least 1 and the position given to
  \<open>splice\<close> is the offset less one, without wrap-around: it is not negative.
\<close>

theorem splice_offset_nonneg:
  assumes "0 \<le> sint offset"
    and "(Splice fd_in off_in fd_out len, r) \<in>
           set (calls_of s (snd (check_dirty_pipe K path offset data s)))"
  shows "1 \<le> sint offset \<and> off_in = offset - 1 \<and> sint off_in = sint offset - 1 \<and> 0 \<le> sint off_in"
proof -
  from assms(2) have "Splice fd_in off_in fd_out len \<in>
      fst ` set (calls_of s (snd (check_dirty_pipe K path offset data s)))"
    by force
  with only_calls_cdp have "cdp_call path offset data (Splice fd_in off_in fd_out len)"
    by (rule calls_satisfy)
  then have off: "off_in = offset - 1" and nz: "sint offset smod PAGE_SIZE \<noteq> 0"
    by (simp_all add: cdp_call_def)
  from nz have "sint offset \<noteq> 0" by auto
  with assms(1) have 1: "1 \<le> sint offset" by simp
  from sint_pred [OF 1] off 1 show ?thesis by simp
qed

theorem splice_offset_nonneg_witness:
  "0 \<le> sint (6 :: loff_t) \<and>
   (Splice 3 5 5 1, RInt 1) \<in> set (calls_of (start (run 65536 test_string))
     (snd (check_dirty_pipe scripted test_file 6 ''mammy'' (start (run 65536 test_string))))) \<and>
   sint (5 :: loff_t) = sint (6 :: loff_t) - 1 \<and> 0 \<le> sint (5 :: loff_t)"
proof -
  have 1: "0 \<le> sint (6 :: loff_t)" by simp
  have 2: "(Splice 3 5 5 1, RInt 1) \<in> set (calls_of (start (run 65536 test_string))
     (snd (check_dirty_pipe scripted test_file 6 ''mammy'' (start (run 65536 test_string)))))"
    by (simp add: run_defs calls_of_def)
  from splice_offset_nonneg [OF 1 2] 1 2 show ?thesis by simp
qed

section \<open>Command-line arguments\<close>

text \<open>
  Claim C10. \<open>main\<close> does not look at its arguments: two runs from the same state of
  the process and of the kernel end alike, whatever \<open>argc\<close> and \<open>argv\<close> are. Every
  call that names a file names \<open>/tmp/testfile.txt\<close>, the one splice is at offset 6 less
  one, and what is written is the payload \<open>mammy\<close>, the content of the artifact, or the
  zeros that fill the pipe.
\<close>

theorem main_ignores_arguments:
  "main argc argv K s = main argc' argv' K s \<and>
   only_calls fixed_target s (snd (main argc argv K s))"
  using only_calls_main [of s argc argv K] by (simp add: main_def)

theorem main_ignores_arguments_witness:
  "main 1 [''ditty''] scripted (start (run 65536 test_string)) =
     main 3 [''ditty'', ''/etc/passwd'', ''1''] scripted (start (run 65536 test_string)) \<and>
   (Open ''/tmp/testfile.txt'' O_RDONLY, RInt 3) \<in> set (calls_of (start (run 65536 test_string))
     (snd (main 3 [''ditty'', ''/etc/passwd'', ''1''] scripted (start (run 65536 test_string))))) \<and>
   list_all (\<lambda>e. fixed_target (fst e)) (calls_of (start (run 65536 test_string))
     (snd (main 3 [''ditty'', ''/etc/passwd'', ''1''] scripted (start (run 65536 test_string)))))"
proof -
  have "(Open ''/tmp/testfile.txt'' O_RDONLY, RInt 3) \<in> set (calls_of (start (run 65536 test_string))
     (snd (main 3 [''ditty'', ''/etc/passwd'', ''1''] scripted (start (run 65536 test_string)))))"
    by (simp add: run_defs calls_of_def)
  with main_ignores_arguments [of 1 "[''ditty'']" scripted "start (run 65536 test_string)" 3
      "[''ditty'', ''/etc/passwd'', ''1'']"]
    main_ignores_arguments [of 3 "[''ditty'', ''/etc/passwd'', ''1'']" scripted
      "start (run 65536 test_string)" 3 "[''ditty'', ''/etc/passwd'', ''1'']"]
  show ?thesis by (simp add: only_calls_def)
qed

end
